theory Spec2Isabelle
  imports Main "HOL-Library.Word" "HOL-Library.Signed_Division"
begin

unbundle bit_operations_syntax

section \<open>Data model (main.h)\<close>

text \<open>
  The enumerations of event sources and event identifiers are only ever written by the
  three producers of this firmware, with their named constants, so they are datatypes.
  \<open>enum State_speed\<close> is different: \<open>handle_homekit\<close> casts an arbitrary
  \<open>uint32_t\<close> argument into it and \<open>Relay_write_speed\<close> has a \<open>default\<close>
  branch for invalid values, so a speed is the 32-bit unsigned integer that the compiler
  stores for it, with the enumerators as constants.
\<close>

datatype Event_source = SOURCE_HOMEKIT | SOURCE_REMOTE | SOURCE_BUTTON

datatype Event_id = ID_POWER | ID_OSCILLATE | ID_TIME | ID_SPEED | ID_TEMPERATURE

record Fan_event_t =
  source :: Event_source
  event_id :: Event_id
  arg :: "32 word"

type_synonym State_speed = "32 word"

definition SPEED_OFF :: State_speed where "SPEED_OFF = 0"
definition SPEED_1 :: State_speed where "SPEED_1 = 1"
definition SPEED_2 :: State_speed where "SPEED_2 = 2"
definition SPEED_3 :: State_speed where "SPEED_3 = 3"
definition SPEED_4 :: State_speed where "SPEED_4 = 4"
definition NUM_SPEED :: State_speed where "NUM_SPEED = 5"

record Fan_state_t =
  on :: bool
  oscillate :: bool
  speed :: State_speed

section \<open>The event queue\<close>

text \<open>
  Modelled from the spec: the FreeRTOS queue behind \<open>g_Fan_event_queue\<close> is not part of
  the sources. \<open>app_main\<close> creates it with room for 10 events, and section 4.3 of the
  specification describes a bounded FIFO whose producers drop the newest event when it is
  full. \<open>xQueueSend\<close> and \<open>xQueueSendFromISR\<close> therefore append at the tail while there is
  room and leave the queue as it is otherwise; all callers discard the returned status.
\<close>

definition QUEUE_LENGTH :: nat where "QUEUE_LENGTH = 10"

definition xQueueSend :: "Fan_event_t list \<Rightarrow> Fan_event_t \<Rightarrow> Fan_event_t list" where
  "xQueueSend q ev = (if length q < QUEUE_LENGTH then q @ [ev] else q)"

definition xQueueSendFromISR :: "Fan_event_t list \<Rightarrow> Fan_event_t \<Rightarrow> Fan_event_t list" where
  "xQueueSendFromISR q ev = (if length q < QUEUE_LENGTH then q @ [ev] else q)"

record Queue_owner =
  g_Fan_event_queue :: "Fan_event_t list"

section \<open>Infrared decoder (remote.c)\<close>

definition IR_CODE_POWER :: "16 word" where "IR_CODE_POWER = 0x13F"
definition IR_CODE_OSCILLATE :: "16 word" where "IR_CODE_OSCILLATE = 0x13B"
definition IR_CODE_SPEED :: "16 word" where "IR_CODE_SPEED = 0x13D"
definition IR_CODE_TIME :: "16 word" where "IR_CODE_TIME = 0x13E"
definition IR_CODE_TEMPERATURE :: "16 word" where "IR_CODE_TEMPERATURE = 0x12F"

definition NUM_SYMBOL_EXPECTED :: "32 word" where "NUM_SYMBOL_EXPECTED = 11"
definition RMT_MAX_MEM_SYMBOLS :: nat where "RMT_MAX_MEM_SYMBOLS = 48"
definition DURATION_ERROR_MARGIN :: "32 word" where "DURATION_ERROR_MARGIN = 200"
definition DURATION_SHORT :: "32 word" where "DURATION_SHORT = 400"
definition DURATION_LONG :: "32 word" where "DURATION_LONG = 1200"

text \<open>
  One RMT symbol: the mark duration and the space duration in microseconds, as the
  \<open>uint32_t\<close> values that \<open>check_in_range\<close> receives (the driver's bit fields are
  narrower; the levels are never read by the decoder).
\<close>

record rmt_symbol_word_t =
  duration0 :: "32 word"
  duration1 :: "32 word"

definition check_in_range :: "32 word \<Rightarrow> 32 word \<Rightarrow> bool" where
  "check_in_range signal_duration spec_duration \<longleftrightarrow>
     signal_duration < spec_duration + DURATION_ERROR_MARGIN \<and>
     signal_duration > spec_duration - DURATION_ERROR_MARGIN"

definition parse_logic0 :: "rmt_symbol_word_t \<Rightarrow> bool" where
  "parse_logic0 symbol \<longleftrightarrow>
     check_in_range (duration0 symbol) DURATION_LONG \<and>
     check_in_range (duration1 symbol) DURATION_SHORT"

definition parse_logic1 :: "rmt_symbol_word_t \<Rightarrow> bool" where
  "parse_logic1 symbol \<longleftrightarrow>
     check_in_range (duration0 symbol) DURATION_SHORT \<and>
     check_in_range (duration1 symbol) DURATION_LONG"

text \<open>
  The state of one run of \<open>parse_ir_code\<close>: the two locals of the loop, the global event
  queue, and a log of the shift amount of every \<open>1 << n\<close> the loop executes (the log is
  not in the C code; it records an effect of the code that claims are about).
\<close>

record Remote = Queue_owner +
  ir_code :: "16 word"
  bit_index :: "32 word"
  shift_log :: "nat list"

definition remote_event :: "Event_id \<Rightarrow> Fan_event_t" where
  "remote_event i = \<lparr>source = SOURCE_REMOTE, event_id = i, arg = 0\<rparr>"

definition send_remote :: "Event_id \<Rightarrow> Remote \<Rightarrow> Remote" where
  "send_remote i st =
     st\<lparr>g_Fan_event_queue := xQueueSend (g_Fan_event_queue st) (remote_event i)\<rparr>"

definition is_command :: "16 word \<Rightarrow> Remote \<Rightarrow> bool \<times> Remote" where
  "is_command code st =
     (if code = IR_CODE_POWER then (True, send_remote ID_POWER st)
      else if code = IR_CODE_OSCILLATE then (True, send_remote ID_OSCILLATE st)
      else if code = IR_CODE_SPEED then (True, send_remote ID_SPEED st)
      else if code = IR_CODE_TIME then (True, send_remote ID_TIME st)
      else if code = IR_CODE_TEMPERATURE then (True, send_remote ID_TEMPERATURE st)
      else (False, st))"

text \<open>
  \<open>ir_code |= (1 << (NUM_SYMBOL_EXPECTED - bit_index - 1))\<close>: the shift amount is
  computed in \<open>size_t\<close> (32 bits on this target), so it wraps below zero; the constant
  1 is a 32-bit \<open>int\<close>, and the result is truncated to the 16 bits of \<open>ir_code\<close>.
  C leaves a shift by 32 or more undefined; the model takes the value 0 there (all bits
  shifted out), and logs the shift amount whatever it is.
\<close>

definition shift_left_1 :: "nat \<Rightarrow> 32 word" where
  "shift_left_1 n = (if n < 32 then push_bit n 1 else 0)"

definition set_bit_of_code :: "Remote \<Rightarrow> Remote" where
  "set_bit_of_code st =
     (let n = unat (NUM_SYMBOL_EXPECTED - bit_index st - 1)
      in st\<lparr>ir_code := ir_code st OR ucast (shift_left_1 n),
            shift_log := shift_log st @ [n]\<rparr>)"

text \<open>The end of the loop body: count the bit and look the code up after 11 bits.\<close>

definition count_bit :: "Remote \<Rightarrow> Remote" where
  "count_bit st =
     (let st1 = st\<lparr>bit_index := bit_index st + 1\<rparr>
      in if NUM_SYMBOL_EXPECTED = bit_index st1
         then (case is_command (ir_code st1) st1 of
                 (True, st2) \<Rightarrow> st2
               | (False, st2) \<Rightarrow> st2\<lparr>ir_code := 0, bit_index := 0\<rparr>)
         else st1)"

text \<open>One iteration of the loop; \<open>None\<close> is the \<open>return\<close> on a bad symbol.\<close>

definition parse_symbol :: "rmt_symbol_word_t \<Rightarrow> Remote \<Rightarrow> Remote option" where
  "parse_symbol symbol st =
     (if parse_logic1 symbol then Some (count_bit (set_bit_of_code st))
      else if \<not> parse_logic0 symbol then None
      else Some (count_bit st))"

fun parse_loop :: "rmt_symbol_word_t list \<Rightarrow> Remote \<Rightarrow> Remote" where
  "parse_loop [] st = st"
| "parse_loop (symbol # rest) st =
     (case parse_symbol symbol st of
        None \<Rightarrow> st
      | Some st' \<Rightarrow> parse_loop rest st')"

text \<open>
  \<open>parse_ir_code\<close> takes the received symbols (\<open>num_symbols\<close> is their number) and the
  queue as it stands; it returns the final state of the run, whose queue is the effect
  of the call.
\<close>

definition parse_start :: "Fan_event_t list \<Rightarrow> Remote" where
  "parse_start q = \<lparr>g_Fan_event_queue = q, ir_code = 0, bit_index = 0, shift_log = []\<rparr>"

definition parse_ir_code :: "rmt_symbol_word_t list \<Rightarrow> Fan_event_t list \<Rightarrow> Remote" where
  "parse_ir_code rmt_symbols q =
     (if RMT_MAX_MEM_SYMBOLS \<noteq> length rmt_symbols then parse_start q
      else parse_loop rmt_symbols (parse_start q))"

section \<open>Debounced buttons (button.c)\<close>

text \<open>
  Times are microseconds read from \<open>gettimeofday\<close> into an \<open>int64_t\<close>; they are far
  from the ends of that type, so they are integers here. Both interrupt handlers read
  and write the one static \<open>prev_time_us\<close>, which \<open>Button_init\<close> sets to the time of
  initialisation. The time read by a handler is its argument.
\<close>

definition NUM_USEC_IN_MSEC :: int where "NUM_USEC_IN_MSEC = 1000"
definition MIN_TIME_BETWEEN_PRESS :: int where "MIN_TIME_BETWEEN_PRESS = 250 * NUM_USEC_IN_MSEC"

record Button = Queue_owner +
  prev_time_us :: int

definition button_event :: "Event_id \<Rightarrow> Fan_event_t" where
  "button_event i = \<lparr>source = SOURCE_BUTTON, event_id = i, arg = 0\<rparr>"

definition power_interrupt :: "int \<Rightarrow> Button \<Rightarrow> Button" where
  "power_interrupt time_us b =
     (if time_us - prev_time_us b < MIN_TIME_BETWEEN_PRESS then b
      else b\<lparr>g_Fan_event_queue := xQueueSendFromISR (g_Fan_event_queue b) (button_event ID_POWER),
             prev_time_us := time_us\<rparr>)"

definition oscillate_interrupt :: "int \<Rightarrow> Button \<Rightarrow> Button" where
  "oscillate_interrupt time_us b =
     (if time_us - prev_time_us b < MIN_TIME_BETWEEN_PRESS then b
      else b\<lparr>g_Fan_event_queue := xQueueSendFromISR (g_Fan_event_queue b) (button_event ID_OSCILLATE),
             prev_time_us := time_us\<rparr>)"

definition Button_init :: "int \<Rightarrow> Fan_event_t list \<Rightarrow> Button" where
  "Button_init time_us q = \<lparr>g_Fan_event_queue = q, prev_time_us = time_us\<rparr>"

text \<open>
  The two button pins of \<open>buttons[]\<close>, the handler that \<open>Button_init\<close> registers for
  each with \<open>gpio_isr_handler_add\<close>, and the kind of event that handler builds.
  \<open>button_edges\<close> runs the handlers for a sequence of rising edges, each given as the
  pin and the time read by its handler.
\<close>

datatype Button_gpio = FAN_PWR_BUTTON_GPIO | FAN_OSC_BUTTON_GPIO

fun gpio_isr_handler :: "Button_gpio \<Rightarrow> int \<Rightarrow> Button \<Rightarrow> Button" where
  "gpio_isr_handler FAN_PWR_BUTTON_GPIO = power_interrupt"
| "gpio_isr_handler FAN_OSC_BUTTON_GPIO = oscillate_interrupt"

fun isr_event_id :: "Button_gpio \<Rightarrow> Event_id" where
  "isr_event_id FAN_PWR_BUTTON_GPIO = ID_POWER"
| "isr_event_id FAN_OSC_BUTTON_GPIO = ID_OSCILLATE"

fun button_edges :: "(Button_gpio \<times> int) list \<Rightarrow> Button \<Rightarrow> Button" where
  "button_edges [] b = b"
| "button_edges (edge # edges) b =
     button_edges edges (gpio_isr_handler (fst edge) (snd edge) b)"

section \<open>HomeKit adapter (homekit.c)\<close>

text \<open>
  A write from HomeKit names one characteristic and carries its value; the rotation
  speed arrives as a float that the callback first converts to \<open>int\<close>, and that integer is
  the datum here. \<open>HomeKit_write_event\<close> is the event that \<open>HomeKit_write_callback\<close>
  builds and sends for one write, \<open>None\<close> where it fails with \<open>HAP_FAIL\<close>.
\<close>

datatype hap_write_data_t =
  HAP_CHAR_ON bool
| HAP_CHAR_SWING_MODE bool
| HAP_CHAR_ROTATION_SPEED int
| HAP_CHAR_OTHER

definition homekit_event :: "Event_id \<Rightarrow> 32 word \<Rightarrow> Fan_event_t" where
  "homekit_event i a = \<lparr>source = SOURCE_HOMEKIT, event_id = i, arg = a\<rparr>"

fun HomeKit_write_event :: "hap_write_data_t \<Rightarrow> Fan_event_t option" where
  "HomeKit_write_event (HAP_CHAR_ON b) = Some (homekit_event ID_POWER (if b then 1 else 0))"
| "HomeKit_write_event (HAP_CHAR_SWING_MODE b) =
     Some (homekit_event ID_OSCILLATE (if b then 1 else 0))"
| "HomeKit_write_event (HAP_CHAR_ROTATION_SPEED integer_speed) =
     Some (homekit_event ID_SPEED
       (if 0 = integer_speed then SPEED_OFF
        else if integer_speed \<le> 25 then SPEED_1
        else if integer_speed \<le> 50 then SPEED_2
        else if integer_speed \<le> 75 then SPEED_3
        else SPEED_4))"
| "HomeKit_write_event HAP_CHAR_OTHER = None"

section \<open>The controller's state and the actuators (relay.c, led.c)\<close>

text \<open>
  Modelled from the spec: \<open>gpio_set_level\<close> belongs to the GPIO driver, which is not part
  of the sources; the specification treats the outputs as fire-and-forget writes. A write
  is logged, in order, as the pin and the level; the level of a pin at any moment is
  that of the last write to it.

  \<open>hap_log\<close> holds the fan state that each call of \<open>HomeKit_update_char\<close> hands to the
  HomeKit library (which scales the speed by 25 in floating point).
\<close>

type_synonym gpio_num_t = nat

definition GPIO_LOW :: nat where "GPIO_LOW = 0"
definition GPIO_HIGH :: nat where "GPIO_HIGH = 1"

definition FAN_SPEED1_RELAY_GPIO :: gpio_num_t where "FAN_SPEED1_RELAY_GPIO = 3"
definition FAN_SPEED2_RELAY_GPIO :: gpio_num_t where "FAN_SPEED2_RELAY_GPIO = 4"
definition FAN_SPEED3_RELAY_GPIO :: gpio_num_t where "FAN_SPEED3_RELAY_GPIO = 5"
definition FAN_SPEED4_RELAY_GPIO :: gpio_num_t where "FAN_SPEED4_RELAY_GPIO = 6"
definition FAN_OSC_RELAY_GPIO :: gpio_num_t where "FAN_OSC_RELAY_GPIO = 7"
definition FAN_SPEED1_LED_GPIO :: gpio_num_t where "FAN_SPEED1_LED_GPIO = 8"
definition FAN_SPEED2_LED_GPIO :: gpio_num_t where "FAN_SPEED2_LED_GPIO = 9"
definition FAN_SPEED3_LED_GPIO :: gpio_num_t where "FAN_SPEED3_LED_GPIO = 10"
definition FAN_SPEED4_LED_GPIO :: gpio_num_t where "FAN_SPEED4_LED_GPIO = 13"
definition FAN_BUILTIN_LED_GPIO :: gpio_num_t where "FAN_BUILTIN_LED_GPIO = 12"

definition relays :: "gpio_num_t list" where
  "relays = [FAN_SPEED1_RELAY_GPIO, FAN_SPEED2_RELAY_GPIO, FAN_SPEED3_RELAY_GPIO,
             FAN_SPEED4_RELAY_GPIO, FAN_OSC_RELAY_GPIO]"

definition leds :: "gpio_num_t list" where
  "leds = [FAN_SPEED1_LED_GPIO, FAN_SPEED2_LED_GPIO, FAN_SPEED3_LED_GPIO,
           FAN_SPEED4_LED_GPIO, FAN_BUILTIN_LED_GPIO]"

definition NUM_SPEED_RELAY :: nat where "NUM_SPEED_RELAY = 4"
definition NUM_SPEED_LED :: nat where "NUM_SPEED_LED = 4"

record System =
  g_Fan_state :: Fan_state_t
  g_Led_enable :: bool
  gpio_log :: "(gpio_num_t \<times> nat) list"
  hap_log :: "Fan_state_t list"

definition gpio_set_level :: "gpio_num_t \<Rightarrow> nat \<Rightarrow> System \<Rightarrow> System" where
  "gpio_set_level gpio_num level s = s\<lparr>gpio_log := gpio_log s @ [(gpio_num, level)]\<rparr>"

text \<open>The loops \<open>for (i = 0; i < n; i++) gpio_set_level(pins[i], level)\<close>.\<close>

fun set_all :: "gpio_num_t list \<Rightarrow> nat \<Rightarrow> System \<Rightarrow> System" where
  "set_all [] level s = s"
| "set_all (p # ps) level s = set_all ps level (gpio_set_level p level s)"

definition Relay_write_speed :: "State_speed \<Rightarrow> System \<Rightarrow> System" where
  "Relay_write_speed sp s =
     (if speed (g_Fan_state s) = sp \<and> on (g_Fan_state s) then s
      else
        let s1 = set_all (take NUM_SPEED_RELAY relays) GPIO_HIGH s
        in if sp = SPEED_OFF then s1
           else if sp = SPEED_1 then gpio_set_level FAN_SPEED1_RELAY_GPIO GPIO_LOW s1
           else if sp = SPEED_2 then gpio_set_level FAN_SPEED2_RELAY_GPIO GPIO_LOW s1
           else if sp = SPEED_3 then gpio_set_level FAN_SPEED3_RELAY_GPIO GPIO_LOW s1
           else if sp = SPEED_4 then gpio_set_level FAN_SPEED4_RELAY_GPIO GPIO_LOW s1
           else s1)"

definition Relay_write_oscillate :: "bool \<Rightarrow> System \<Rightarrow> System" where
  "Relay_write_oscillate osc s =
     gpio_set_level FAN_OSC_RELAY_GPIO (if osc then GPIO_LOW else GPIO_HIGH) s"

definition Led_write_enable :: "bool \<Rightarrow> System \<Rightarrow> System" where
  "Led_write_enable enable s =
     (let s1 = s\<lparr>g_Led_enable := enable\<rparr>
      in if \<not> g_Led_enable s1 then set_all (take NUM_SPEED_LED leds) GPIO_LOW s1 else s1)"

definition Led_write_speed :: "State_speed \<Rightarrow> System \<Rightarrow> System" where
  "Led_write_speed sp s =
     (if \<not> g_Led_enable s then s
      else
        let s1 = set_all (take NUM_SPEED_LED leds) GPIO_LOW s
        in if sp = SPEED_OFF then s1
           else if sp = SPEED_1 then gpio_set_level FAN_SPEED1_LED_GPIO GPIO_HIGH s1
           else if sp = SPEED_2 then gpio_set_level FAN_SPEED2_LED_GPIO GPIO_HIGH s1
           else if sp = SPEED_3 then gpio_set_level FAN_SPEED3_LED_GPIO GPIO_HIGH s1
           else if sp = SPEED_4 then gpio_set_level FAN_SPEED4_LED_GPIO GPIO_HIGH s1
           else s1)"

definition Led_write_builtin :: "bool \<Rightarrow> System \<Rightarrow> System" where
  "Led_write_builtin state s =
     gpio_set_level FAN_BUILTIN_LED_GPIO (if state then GPIO_HIGH else GPIO_LOW) s"

definition HomeKit_update_char :: "System \<Rightarrow> System" where
  "HomeKit_update_char s = s\<lparr>hap_log := hap_log s @ [g_Fan_state s]\<rparr>"

section \<open>Event handlers (event_handlers.c)\<close>

definition set_on :: "bool \<Rightarrow> System \<Rightarrow> System" where
  "set_on v s = s\<lparr>g_Fan_state := (g_Fan_state s)\<lparr>on := v\<rparr>\<rparr>"

definition set_oscillate :: "bool \<Rightarrow> System \<Rightarrow> System" where
  "set_oscillate v s = s\<lparr>g_Fan_state := (g_Fan_state s)\<lparr>oscillate := v\<rparr>\<rparr>"

definition set_speed :: "State_speed \<Rightarrow> System \<Rightarrow> System" where
  "set_speed v s = s\<lparr>g_Fan_state := (g_Fan_state s)\<lparr>speed := v\<rparr>\<rparr>"

text \<open>The casts \<open>(bool) event->arg\<close> and the conditions \<open>(event->arg) ? a : b\<close>.\<close>

definition arg_bool :: "Fan_event_t \<Rightarrow> bool" where
  "arg_bool event \<longleftrightarrow> arg event \<noteq> 0"

definition handle_homekit :: "Fan_event_t \<Rightarrow> System \<Rightarrow> System" where
  "handle_homekit event s =
     (case event_id event of
        ID_POWER \<Rightarrow>
          if on (g_Fan_state s) = arg_bool event then s
          else
            let s1 = Relay_write_speed
                       (if arg_bool event then speed (g_Fan_state s) else SPEED_OFF) s;
                s2 = Relay_write_oscillate
                       (if arg_bool event then oscillate (g_Fan_state s1) else False) s1
            in set_on (arg_bool event) s2
      | ID_OSCILLATE \<Rightarrow>
          let s1 = (if on (g_Fan_state s) then Relay_write_oscillate (arg_bool event) s else s)
          in set_oscillate (arg_bool event) s1
      | ID_SPEED \<Rightarrow>
          if SPEED_OFF = arg event then s
          else
            let s1 = (if on (g_Fan_state s) then Relay_write_speed (arg event) s else s)
            in set_speed (arg event) s1
      | _ \<Rightarrow> s)"

text \<open>
  \<open>(((g_Fan_state.speed) - 1) % NUM_SPEED) + !g_Fan_state.on\<close> is computed in the
  unsigned type of the enumeration.
\<close>

definition button_next_speed :: "Fan_state_t \<Rightarrow> State_speed" where
  "button_next_speed f = ((speed f - 1) mod NUM_SPEED) + (if on f then 0 else 1)"

definition handle_button :: "Fan_event_t \<Rightarrow> System \<Rightarrow> System" where
  "handle_button event s =
     HomeKit_update_char
       (case event_id event of
          ID_POWER \<Rightarrow>
            let next_speed = button_next_speed (g_Fan_state s);
                s1 = Relay_write_speed next_speed s;
                s2 = Relay_write_oscillate
                       (if SPEED_OFF \<noteq> next_speed then oscillate (g_Fan_state s1) else False) s1;
                s3 = set_speed (if SPEED_OFF \<noteq> next_speed then next_speed else SPEED_4) s2
            in set_on (SPEED_OFF \<noteq> next_speed) s3
        | ID_OSCILLATE \<Rightarrow>
            let s1 = (if on (g_Fan_state s)
                      then Relay_write_oscillate (\<not> oscillate (g_Fan_state s)) s else s)
            in set_oscillate (\<not> oscillate (g_Fan_state s1)) s1
        | _ \<Rightarrow> s)"

text \<open>
  \<open>((((int) g_Fan_state.speed - 1) - 1 + SPEED_4) % SPEED_4) + 1\<close> is computed in
  \<open>int\<close>, where \<open>%\<close> truncates towards zero (\<open>smod\<close>), and stored back into the
  enumeration. (For the two speeds next to \<open>INT_MAX\<close> the C addition overflows; the
  model wraps there.)
\<close>

definition remote_next_speed :: "Fan_state_t \<Rightarrow> State_speed" where
  "remote_next_speed f =
     word_of_int ((((sint (speed f) - 1) - 1 + sint SPEED_4) smod sint SPEED_4) + 1)"

definition handle_remote :: "Fan_event_t \<Rightarrow> System \<Rightarrow> System" where
  "handle_remote event s =
     HomeKit_update_char
       (case event_id event of
          ID_POWER \<Rightarrow>
            let s1 = Relay_write_speed
                       (if on (g_Fan_state s) then SPEED_OFF else speed (g_Fan_state s)) s;
                s2 = Relay_write_oscillate
                       (if on (g_Fan_state s1) then False else oscillate (g_Fan_state s1)) s1
            in set_on (\<not> on (g_Fan_state s2)) s2
        | ID_OSCILLATE \<Rightarrow>
            let s1 = (if on (g_Fan_state s)
                      then Relay_write_oscillate (\<not> oscillate (g_Fan_state s)) s else s)
            in set_oscillate (\<not> oscillate (g_Fan_state s1)) s1
        | ID_SPEED \<Rightarrow>
            if \<not> on (g_Fan_state s) then s
            else
              let next_speed = remote_next_speed (g_Fan_state s);
                  s1 = Relay_write_speed next_speed s
              in set_speed next_speed s1
        | ID_TIME \<Rightarrow> Led_write_enable (\<not> g_Led_enable s) s
        | ID_TEMPERATURE \<Rightarrow> Led_write_enable (\<not> g_Led_enable s) s)"

section \<open>Initialisation and the event loop (main.c)\<close>

definition Relay_init :: "System \<Rightarrow> System" where
  "Relay_init s = set_all relays GPIO_HIGH s"

definition Led_init :: "System \<Rightarrow> System" where
  "Led_init s = (set_all leds GPIO_LOW s)\<lparr>g_Led_enable := True\<rparr>"

text \<open>
  The state that \<open>app_main\<close> leaves to the event loop: the outputs initialised (whatever
  \<open>g_Led_enable\<close> held before, \<open>Led_init\<close> sets it), the fan off at the stored top speed.
\<close>

definition app_main :: System where
  "app_main =
     (Led_init (Relay_init
        \<lparr>g_Fan_state = \<lparr>on = False, oscillate = False, speed = SPEED_OFF\<rparr>,
         g_Led_enable = False, gpio_log = [], hap_log = []\<rparr>))
     \<lparr>g_Fan_state := \<lparr>on = False, oscillate = False, speed = SPEED_4\<rparr>\<rparr>"

text \<open>One turn of the loop of \<open>Lasko_event_handler\<close>, for the event it received.\<close>

definition handle_event :: "Fan_event_t \<Rightarrow> System \<Rightarrow> System" where
  "handle_event event s =
     (let s1 = Led_write_builtin True s;
          s2 = (case source event of
                  SOURCE_HOMEKIT \<Rightarrow> handle_homekit event s1
                | SOURCE_BUTTON \<Rightarrow> handle_button event s1
                | SOURCE_REMOTE \<Rightarrow> handle_remote event s1);
          s3 = Led_write_speed
                 (if on (g_Fan_state s2) then speed (g_Fan_state s2) else SPEED_OFF) s2
      in Led_write_builtin False s3)"

text \<open>The loop itself never ends; this is its effect on the events received so far.\<close>

fun Lasko_event_handler :: "Fan_event_t list \<Rightarrow> System \<Rightarrow> System" where
  "Lasko_event_handler [] s = s"
| "Lasko_event_handler (event # events) s = Lasko_event_handler events (handle_event event s)"

section \<open>Notions used to state the properties\<close>

text \<open>
  The level of every pin after a sequence of writes, from given levels before it; the
  speed relays are active-low, so a relay is asserted when its pin is low.
\<close>

fun levels_after :: "(gpio_num_t \<times> nat) list \<Rightarrow> (gpio_num_t \<Rightarrow> nat) \<Rightarrow> gpio_num_t \<Rightarrow> nat" where
  "levels_after [] L = L"
| "levels_after (w # ws) L = levels_after ws (L(fst w := snd w))"

definition asserted_speed_relays :: "(gpio_num_t \<Rightarrow> nat) \<Rightarrow> gpio_num_t list" where
  "asserted_speed_relays L = filter (\<lambda>p. L p = GPIO_LOW) (take NUM_SPEED_RELAY relays)"

text \<open>
  How a symbol classifies: \<open>Some True\<close> a logic 1, \<open>Some False\<close> a logic 0, \<open>None\<close>
  neither; and the 11 bits of a code, most significant first.
\<close>

definition classify :: "rmt_symbol_word_t \<Rightarrow> bool option" where
  "classify symbol =
     (if parse_logic1 symbol then Some True
      else if parse_logic0 symbol then Some False else None)"

definition bits_msb_first :: "16 word \<Rightarrow> bool list" where
  "bits_msb_first code = map (\<lambda>k. bit code (10 - k)) [0..<11]"

definition command_of_code :: "16 word \<Rightarrow> Event_id option" where
  "command_of_code code =
     (if code = IR_CODE_POWER then Some ID_POWER
      else if code = IR_CODE_OSCILLATE then Some ID_OSCILLATE
      else if code = IR_CODE_SPEED then Some ID_SPEED
      else if code = IR_CODE_TIME then Some ID_TIME
      else if code = IR_CODE_TEMPERATURE then Some ID_TEMPERATURE
      else None)"

text \<open>
  \<open>never_two ws L\<close>: starting from the levels \<open>L\<close>, at most one speed relay is asserted
  before the writes \<open>ws\<close>, between any two of them, and after them.
\<close>

definition at_most_one_asserted :: "(gpio_num_t \<Rightarrow> nat) \<Rightarrow> bool" where
  "at_most_one_asserted L \<longleftrightarrow> length (asserted_speed_relays L) \<le> 1"

fun never_two :: "(gpio_num_t \<times> nat) list \<Rightarrow> (gpio_num_t \<Rightarrow> nat) \<Rightarrow> bool" where
  "never_two [] L = at_most_one_asserted L"
| "never_two (w # ws) L = (at_most_one_asserted L \<and> never_two ws (L(fst w := snd w)))"

text \<open>
  The writes of a state since initialisation, and the invariant of the event loop: the
  log begins with the writes of \<open>app_main\<close>, and from the levels these establish the
  later writes never assert two speed relays.
\<close>

definition relays_safe :: "(gpio_num_t \<Rightarrow> nat) \<Rightarrow> System \<Rightarrow> bool" where
  "relays_safe L0 s \<longleftrightarrow>
     take (length (gpio_log app_main)) (gpio_log s) = gpio_log app_main \<and>
     never_two (drop (length (gpio_log app_main)) (gpio_log s))
       (levels_after (gpio_log app_main) L0)"

text \<open>
  The events that the producers build: a HomeKit speed event carries one of the five
  speed constants (\<open>HomeKit_write_callback\<close> bins the rotation speed).
\<close>

definition well_formed_event :: "Fan_event_t \<Rightarrow> bool" where
  "well_formed_event event \<longleftrightarrow>
     (source event = SOURCE_HOMEKIT \<and> event_id event = ID_SPEED \<longrightarrow>
        arg event \<in> {SPEED_OFF, SPEED_1, SPEED_2, SPEED_3, SPEED_4})"

definition valid_speed :: "State_speed \<Rightarrow> bool" where
  "valid_speed sp \<longleftrightarrow> sp \<in> {SPEED_1, SPEED_2, SPEED_3, SPEED_4}"

text \<open>
  \<open>spaced p edges\<close>: every edge of the sequence comes at least the debounce window
  after the edge before it, and the first at least the window after the time \<open>p\<close>.
\<close>

fun spaced :: "int \<Rightarrow> (Button_gpio \<times> int) list \<Rightarrow> bool" where
  "spaced p [] = True"
| "spaced p (edge # edges) = (MIN_TIME_BETWEEN_PRESS \<le> snd edge - p \<and> spaced (snd edge) edges)"

text \<open>Symbols and frames used as concrete inputs.\<close>

definition logic1_symbol :: rmt_symbol_word_t where
  "logic1_symbol = \<lparr>duration0 = 400, duration1 = 1200\<rparr>"

definition logic0_symbol :: rmt_symbol_word_t where
  "logic0_symbol = \<lparr>duration0 = 1200, duration1 = 400\<rparr>"

definition bad_symbol :: rmt_symbol_word_t where
  "bad_symbol = \<lparr>duration0 = 3000, duration1 = 400\<rparr>"

definition symbol_of_bit :: "bool \<Rightarrow> rmt_symbol_word_t" where
  "symbol_of_bit b = (if b then logic1_symbol else logic0_symbol)"

definition power_symbols :: "rmt_symbol_word_t list" where
  "power_symbols = map symbol_of_bit (bits_msb_first IR_CODE_POWER)"

definition frame_power :: "rmt_symbol_word_t list" where
  "frame_power = power_symbols @ replicate 37 logic0_symbol"

definition frame_bad_then_power :: "rmt_symbol_word_t list" where
  "frame_bad_then_power = bad_symbol # power_symbols @ replicate 36 logic0_symbol"

definition frame_power_then_one :: "rmt_symbol_word_t list" where
  "frame_power_then_one = power_symbols @ logic1_symbol # replicate 36 logic0_symbol"

section \<open>Unfolding rules\<close>

lemmas speed_defs = SPEED_OFF_def SPEED_1_def SPEED_2_def SPEED_3_def SPEED_4_def NUM_SPEED_def

lemmas IR_CODE_defs = IR_CODE_POWER_def IR_CODE_OSCILLATE_def IR_CODE_SPEED_def
  IR_CODE_TIME_def IR_CODE_TEMPERATURE_def

lemmas range_defs = check_in_range_def DURATION_LONG_def DURATION_SHORT_def
  DURATION_ERROR_MARGIN_def

lemmas gpio_defs = GPIO_LOW_def GPIO_HIGH_def FAN_SPEED1_RELAY_GPIO_def
  FAN_SPEED2_RELAY_GPIO_def FAN_SPEED3_RELAY_GPIO_def FAN_SPEED4_RELAY_GPIO_def
  FAN_OSC_RELAY_GPIO_def FAN_SPEED1_LED_GPIO_def FAN_SPEED2_LED_GPIO_def
  FAN_SPEED3_LED_GPIO_def FAN_SPEED4_LED_GPIO_def FAN_BUILTIN_LED_GPIO_def relays_def
  leds_def NUM_SPEED_RELAY_def NUM_SPEED_LED_def

lemmas relay_defs = Relay_write_speed_def Relay_write_oscillate_def gpio_set_level_def

lemmas setter_defs = set_on_def set_oscillate_def set_speed_def HomeKit_update_char_def

section \<open>The decoder: classification\<close>

lemma check_in_range_short:
  "check_in_range d DURATION_SHORT \<longleftrightarrow> 200 < unat d \<and> unat d < 600"
  unfolding range_defs by (auto simp add: word_less_nat_alt)

lemma check_in_range_long:
  "check_in_range d DURATION_LONG \<longleftrightarrow> 1000 < unat d \<and> unat d < 1400"
  unfolding range_defs by (auto simp add: word_less_nat_alt)

lemma classify_logic1_symbol: "classify logic1_symbol = Some True"
  by (simp add: classify_def logic1_symbol_def parse_logic1_def range_defs)

lemma classify_logic0_symbol: "classify logic0_symbol = Some False"
  by (simp add: classify_def logic0_symbol_def parse_logic1_def parse_logic0_def range_defs)

lemma classify_bad_symbol: "classify bad_symbol = None"
  by (simp add: classify_def bad_symbol_def parse_logic1_def parse_logic0_def range_defs)

lemma classify_symbol_of_bit: "classify (symbol_of_bit b) = Some b"
  by (simp add: symbol_of_bit_def classify_logic1_symbol classify_logic0_symbol)

lemma bits_power:
  "bits_msb_first IR_CODE_POWER =
     [False, False, True, False, False, True, True, True, True, True, True]"
  by (simp add: bits_msb_first_def IR_CODE_defs upt_rec bit_numeral_rec)

text \<open>
  C9, as stated, fails: the comparisons of \<open>check_in_range\<close> are strict, so a duration
  exactly 200 microseconds from its template is out of range, and the pairs (1400, 600)
  and (200, 1000) match neither template.
\<close>

theorem margin_boundary_out_of_range:
  "\<not> check_in_range 1400 DURATION_LONG \<and> \<not> check_in_range 200 DURATION_SHORT \<and>
   \<not> parse_logic0 \<lparr>duration0 = 1400, duration1 = 600\<rparr> \<and>
   \<not> parse_logic1 \<lparr>duration0 = 200, duration1 = 1000\<rparr>"
  by (simp add: parse_logic0_def parse_logic1_def range_defs)

text \<open>
  C9, amended: a duration matches a template exactly when it is strictly less than 200
  microseconds away from it, that is strictly between 200 and 600 for the short template
  and strictly between 1000 and 1400 for the long one; a logic 0 is a long mark with a
  short space, a logic 1 a short mark with a long space.
\<close>

theorem check_in_range_strict:
  "(check_in_range d DURATION_SHORT \<longleftrightarrow> 200 < unat d \<and> unat d < 600) \<and>
   (check_in_range d DURATION_LONG \<longleftrightarrow> 1000 < unat d \<and> unat d < 1400) \<and>
   (parse_logic0 symbol \<longleftrightarrow>
      1000 < unat (duration0 symbol) \<and> unat (duration0 symbol) < 1400 \<and>
      200 < unat (duration1 symbol) \<and> unat (duration1 symbol) < 600) \<and>
   (parse_logic1 symbol \<longleftrightarrow>
      200 < unat (duration0 symbol) \<and> unat (duration0 symbol) < 600 \<and>
      1000 < unat (duration1 symbol) \<and> unat (duration1 symbol) < 1400)"
  by (simp add: parse_logic0_def parse_logic1_def check_in_range_short check_in_range_long)

section \<open>The decoder: the loop\<close>

lemma parse_symbol_classify:
  "parse_symbol symbol st =
     (case classify symbol of
        Some True \<Rightarrow> Some (count_bit (set_bit_of_code st))
      | Some False \<Rightarrow> Some (count_bit st)
      | None \<Rightarrow> None)"
  by (simp add: parse_symbol_def classify_def)

text \<open>The loop sees a symbol only through its classification.\<close>

lemma parse_loop_cong:
  "map classify xs = map classify ys \<Longrightarrow> parse_loop (xs @ rest) st = parse_loop (ys @ rest) st"
proof (induction xs arbitrary: ys st)
  case Nil
  then show ?case by simp
next
  case (Cons x xs)
  then obtain y ys' where ys: "ys = y # ys'" and c: "classify x = classify y"
    and m: "map classify xs = map classify ys'"
    by (cases ys) auto
  show ?case
    by (simp add: ys parse_symbol_classify c Cons.IH [OF m] split: option.split)
qed

lemma parse_loop_bad:
  "classify bad = None \<Longrightarrow> parse_loop (pre @ bad # post) st = parse_loop pre st"
proof (induction pre arbitrary: st)
  case Nil
  then show ?case by (simp add: parse_symbol_classify)
next
  case (Cons x xs)
  then show ?case by (simp split: option.split)
qed

lemma count_bit_past:
  "bit_index st + 1 \<noteq> NUM_SYMBOL_EXPECTED \<Longrightarrow> count_bit st = st\<lparr>bit_index := bit_index st + 1\<rparr>"
  by (auto simp add: count_bit_def Let_def)

lemma set_bit_of_code_fields:
  "bit_index (set_bit_of_code st) = bit_index st"
  "g_Fan_event_queue (set_bit_of_code st) = g_Fan_event_queue st"
  by (simp_all add: set_bit_of_code_def Let_def)

lemma count_bit_shift_log: "shift_log (count_bit st) = shift_log st"
  by (simp add: count_bit_def Let_def is_command_def send_remote_def)

text \<open>
  While the bit index stays away from 11 nothing is sent: this covers a window that is
  still incomplete (index below 11) and everything after a match (index above).
\<close>

lemma parse_loop_no_lookup:
  "(\<forall>k \<le> length ss. 0 < k \<longrightarrow> unat (bit_index st) + k \<noteq> 11) \<Longrightarrow>
   unat (bit_index st) + length ss < 2 ^ 32 \<Longrightarrow>
   g_Fan_event_queue (parse_loop ss st) = g_Fan_event_queue st"
proof (induction ss arbitrary: st)
  case Nil
  then show ?case by simp
next
  case (Cons x xs)
  have u: "unat (bit_index st + 1) = unat (bit_index st) + 1"
    using Cons.prems(2) by (simp add: unat_word_ariths)
  have "unat (bit_index st) + 1 \<noteq> 11"
    using Cons.prems(1) [rule_format, of 1] by simp
  with u have ne: "bit_index st + 1 \<noteq> NUM_SYMBOL_EXPECTED"
    by (auto simp add: NUM_SYMBOL_EXPECTED_def)
  have later: "\<forall>k \<le> length xs. 0 < k \<longrightarrow> unat (bit_index st) + 1 + k \<noteq> 11"
  proof (intro allI impI)
    fix k assume "k \<le> length xs" "0 < k"
    then have "Suc k \<le> length (x # xs)" "0 < Suc k" by simp_all
    with Cons.prems(1) have "unat (bit_index st) + Suc k \<noteq> 11" by blast
    then show "unat (bit_index st) + 1 + k \<noteq> 11" by simp
  qed
  have step: "g_Fan_event_queue (parse_loop xs (count_bit t)) = g_Fan_event_queue st"
    if t: "bit_index t = bit_index st" "g_Fan_event_queue t = g_Fan_event_queue st" for t
  proof -
    have c: "count_bit t = t\<lparr>bit_index := bit_index st + 1\<rparr>"
      using ne by (simp add: count_bit_past t)
    have "g_Fan_event_queue (parse_loop xs (count_bit t)) = g_Fan_event_queue (count_bit t)"
      using Cons.prems(2) u later by (intro Cons.IH) (simp_all add: c)
    then show ?thesis by (simp add: c t)
  qed
  show ?case
    by (simp add: parse_symbol_classify step set_bit_of_code_fields
        split: option.split bool.split)
qed

lemma parse_loop_after_match:
  "11 \<le> unat (bit_index st) \<Longrightarrow> unat (bit_index st) + length ss < 2 ^ 32 \<Longrightarrow>
   g_Fan_event_queue (parse_loop ss st) = g_Fan_event_queue st"
  by (rule parse_loop_no_lookup) auto

lemma parse_loop_incomplete:
  "length ss < 11 \<Longrightarrow> g_Fan_event_queue (parse_loop ss (parse_start q)) = q"
proof -
  assume "length ss < 11"
  then have "g_Fan_event_queue (parse_loop ss (parse_start q)) =
      g_Fan_event_queue (parse_start q)"
    by (intro parse_loop_no_lookup) (auto simp add: parse_start_def)
  then show ?thesis by (simp add: parse_start_def)
qed

lemma parse_loop_zeros_log:
  "\<forall>s\<in>set ss. classify s = Some False \<Longrightarrow> shift_log (parse_loop ss st) = shift_log st"
  by (induction ss arbitrary: st) (simp_all add: parse_symbol_classify count_bit_shift_log)

lemma command_of_code_cases:
  "command_of_code code = Some k \<Longrightarrow>
     (code = IR_CODE_POWER \<and> k = ID_POWER) \<or> (code = IR_CODE_OSCILLATE \<and> k = ID_OSCILLATE) \<or>
     (code = IR_CODE_SPEED \<and> k = ID_SPEED) \<or> (code = IR_CODE_TIME \<and> k = ID_TIME) \<or>
     (code = IR_CODE_TEMPERATURE \<and> k = ID_TEMPERATURE)"
  by (auto simp add: command_of_code_def split: if_splits)

text \<open>Eleven symbols that spell a command code, from the start of a frame.\<close>

lemma parse_loop_code:
  assumes "command_of_code code = Some k"
  shows "parse_loop (map symbol_of_bit (bits_msb_first code) @ rest) (parse_start q) =
     parse_loop rest
       \<lparr>g_Fan_event_queue = xQueueSend q (remote_event k), ir_code = code, bit_index = 11,
        shift_log = map (\<lambda>i. 10 - i) (filter (\<lambda>i. bit code (10 - i)) [0..<11])\<rparr>"
  using command_of_code_cases [OF assms]
  apply (elim disjE conjE)
  apply (simp_all add: bits_msb_first_def IR_CODE_defs upt_rec bit_numeral_rec
      symbol_of_bit_def parse_start_def parse_symbol_classify classify_logic1_symbol
      classify_logic0_symbol count_bit_def set_bit_of_code_def NUM_SYMBOL_EXPECTED_def
      is_command_def send_remote_def Let_def shift_left_1_def)
  done

lemma parse_ir_code_leading_code:
  assumes len: "length frame = 48"
    and bits: "map classify (take 11 frame) = map Some (bits_msb_first code)"
    and code: "command_of_code code = Some k"
  shows "g_Fan_event_queue (parse_ir_code frame q) = xQueueSend q (remote_event k)"
proof -
  have cl: "map classify (take 11 frame) = map classify (map symbol_of_bit (bits_msb_first code))"
    unfolding bits by (simp add: classify_symbol_of_bit comp_def)
  have "parse_loop frame (parse_start q) =
      parse_loop (take 11 frame @ drop 11 frame) (parse_start q)"
    by simp
  also have "\<dots> =
      parse_loop (map symbol_of_bit (bits_msb_first code) @ drop 11 frame) (parse_start q)"
    by (rule parse_loop_cong [OF cl])
  finally have "g_Fan_event_queue (parse_loop frame (parse_start q)) =
      xQueueSend q (remote_event k)"
    using len by (simp add: parse_loop_code [OF code] parse_loop_after_match)
  then show ?thesis
    using len by (simp add: parse_ir_code_def RMT_MAX_MEM_SYMBOLS_def)
qed

lemma parse_ir_code_wrong_length:
  "length frame \<noteq> 48 \<Longrightarrow> g_Fan_event_queue (parse_ir_code frame q) = q"
  by (simp add: parse_ir_code_def RMT_MAX_MEM_SYMBOLS_def parse_start_def)

lemma length_power_symbols: "length power_symbols = 11"
  by (simp add: power_symbols_def bits_power)

lemma classify_power_symbols:
  "map classify power_symbols = map Some (bits_msb_first IR_CODE_POWER)"
  by (simp add: power_symbols_def classify_symbol_of_bit comp_def)

section \<open>The decoder: a symbol that matches neither template\<close>

text \<open>
  C1, as stated, fails: in a frame of 48 pairs whose first pair matches neither template
  and whose next 11 pairs spell the Power code, nothing is decoded; the decoder returns at
  the first pair and leaves the queue empty.
\<close>

theorem code_after_bad_symbol_not_decoded:
  "length frame_bad_then_power = 48 \<and>
   classify (frame_bad_then_power ! 0) = None \<and>
   map classify (take 11 (drop 1 frame_bad_then_power)) =
     map Some (bits_msb_first IR_CODE_POWER) \<and>
   command_of_code IR_CODE_POWER = Some ID_POWER \<and>
   g_Fan_event_queue (parse_ir_code frame_bad_then_power []) = []"
  by (simp add: frame_bad_then_power_def length_power_symbols classify_power_symbols
      classify_bad_symbol command_of_code_def parse_ir_code_def RMT_MAX_MEM_SYMBOLS_def
      parse_symbol_classify parse_start_def)

text \<open>
  C1, amended: in a frame of exactly 48 pairs, a pair that matches neither bit template
  makes the decoder return at once, so the whole rest of the frame is left unexamined:
  the run ends in the state that the pairs before the bad one produced. Commands sent
  for windows completed before it stay in the queue, and when fewer than 11 pairs precede
  it nothing is sent at all.
\<close>

theorem bad_symbol_ends_frame:
  assumes "length (pre @ bad # post) = 48" and "classify bad = None"
  shows "parse_ir_code (pre @ bad # post) q = parse_loop pre (parse_start q) \<and>
         (length pre < 11 \<longrightarrow> g_Fan_event_queue (parse_ir_code (pre @ bad # post) q) = q)"
proof -
  have run: "parse_ir_code (pre @ bad # post) q = parse_loop pre (parse_start q)"
    using assms by (simp add: parse_ir_code_def RMT_MAX_MEM_SYMBOLS_def parse_loop_bad)
  then show ?thesis
    by (simp add: parse_loop_incomplete)
qed

text \<open>
  Witness for C1 amended: the frame of the counterexample, with no pair before the bad
  one and 47 pairs after it.
\<close>

theorem bad_symbol_ends_frame_witness:
  "length ([] @ bad_symbol # power_symbols @ replicate 36 logic0_symbol) = 48 \<and>
   classify bad_symbol = None \<and>
   parse_ir_code ([] @ bad_symbol # power_symbols @ replicate 36 logic0_symbol) [] =
     parse_loop [] (parse_start []) \<and>
   g_Fan_event_queue
     (parse_ir_code ([] @ bad_symbol # power_symbols @ replicate 36 logic0_symbol) []) = []"
proof -
  have len: "length ([] @ bad_symbol # power_symbols @ replicate 36 logic0_symbol) = 48"
    by (simp add: length_power_symbols)
  show ?thesis
    using bad_symbol_ends_frame [OF len classify_bad_symbol, of "[]"] len
    by (simp add: classify_bad_symbol parse_start_def)
qed

section \<open>The decoder: command codes\<close>

text \<open>
  C3: in a frame of exactly 48 pairs whose leading 11 pairs classify as the bits, most
  significant first, of one of the five codes (Power 0x13F, Oscillate 0x13B, Speed 0x13D,
  Time 0x13E, Temperature 0x12F), the decoder hands exactly one event to the queue, with
  source Remote and the kind mapped from the code; it is stored at the tail when the queue
  has room. A frame whose number of pairs is not 48 leaves the queue as it was.
\<close>

theorem remote_code_enqueued:
  assumes "length frame = 48"
    and "map classify (take 11 frame) = map Some (bits_msb_first code)"
    and "command_of_code code = Some k"
  shows "g_Fan_event_queue (parse_ir_code frame q) =
           xQueueSend q \<lparr>source = SOURCE_REMOTE, event_id = k, arg = 0\<rparr> \<and>
         (length q < QUEUE_LENGTH \<longrightarrow>
            g_Fan_event_queue (parse_ir_code frame q) =
              q @ [\<lparr>source = SOURCE_REMOTE, event_id = k, arg = 0\<rparr>]) \<and>
         (length noise \<noteq> 48 \<longrightarrow> g_Fan_event_queue (parse_ir_code noise q) = q) \<and>
         command_of_code 0x13F = Some ID_POWER \<and>
         command_of_code 0x13B = Some ID_OSCILLATE \<and>
         command_of_code 0x13D = Some ID_SPEED \<and>
         command_of_code 0x13E = Some ID_TIME \<and>
         command_of_code 0x12F = Some ID_TEMPERATURE"
proof -
  have sent: "g_Fan_event_queue (parse_ir_code frame q) =
      xQueueSend q \<lparr>source = SOURCE_REMOTE, event_id = k, arg = 0\<rparr>"
    using parse_ir_code_leading_code [OF assms] by (simp add: remote_event_def)
  have table: "command_of_code 0x13F = Some ID_POWER"
    "command_of_code 0x13B = Some ID_OSCILLATE" "command_of_code 0x13D = Some ID_SPEED"
    "command_of_code 0x13E = Some ID_TIME" "command_of_code 0x12F = Some ID_TEMPERATURE"
    by (simp_all add: command_of_code_def IR_CODE_defs)
  show ?thesis
    by (simp add: sent table parse_ir_code_wrong_length) (simp add: xQueueSend_def)
qed

text \<open>
  Witness for C3: the Power code followed by 37 logic-0 pairs, into an empty queue; the
  empty frame as the frame of another length.
\<close>

theorem remote_code_enqueued_witness:
  "length frame_power = 48 \<and>
   map classify (take 11 frame_power) = map Some (bits_msb_first IR_CODE_POWER) \<and>
   command_of_code IR_CODE_POWER = Some ID_POWER \<and>
   length ([] :: Fan_event_t list) < QUEUE_LENGTH \<and>
   length ([] :: rmt_symbol_word_t list) \<noteq> 48 \<and>
   g_Fan_event_queue (parse_ir_code frame_power []) =
     [\<lparr>source = SOURCE_REMOTE, event_id = ID_POWER, arg = 0\<rparr>] \<and>
   g_Fan_event_queue (parse_ir_code [] []) = []"
proof -
  have len: "length frame_power = 48"
    by (simp add: frame_power_def length_power_symbols)
  have bits: "map classify (take 11 frame_power) = map Some (bits_msb_first IR_CODE_POWER)"
    by (simp add: frame_power_def length_power_symbols classify_power_symbols)
  have code: "command_of_code IR_CODE_POWER = Some ID_POWER"
    by (simp add: command_of_code_def)
  show ?thesis
    using remote_code_enqueued [OF len bits code, of "[]" "[]"] len bits code
    by (simp add: QUEUE_LENGTH_def xQueueSend_def)
qed

text \<open>
  C8 does not hold of the code. After a window that matched a command the loop neither
  returns nor resets \<open>bit_index\<close>, so the next logic-1 pair is folded in with the index at
  11 and the shift amount \<open>11 - 11 - 1\<close>, which in \<open>size_t\<close> is 4294967295. In the frame
  made of the Power code, one logic-1 pair and 36 logic-0 pairs, the shifts executed are
  by 8, 5, 4, 3, 2, 1, 0 and then by 4294967295.
\<close>

theorem shift_after_match_out_of_range:
  "length frame_power_then_one = 48 \<and>
   g_Fan_event_queue (parse_ir_code frame_power_then_one []) =
     [\<lparr>source = SOURCE_REMOTE, event_id = ID_POWER, arg = 0\<rparr>] \<and>
   shift_log (parse_ir_code frame_power_then_one []) = [8, 5, 4, 3, 2, 1, 0, 4294967295]"
proof -
  have len: "length frame_power_then_one = 48"
    by (simp add: frame_power_then_one_def length_power_symbols)
  have code: "command_of_code IR_CODE_POWER = Some ID_POWER"
    by (simp add: command_of_code_def)
  have bits: "map classify (take 11 frame_power_then_one) =
      map Some (bits_msb_first IR_CODE_POWER)"
    by (simp add: frame_power_then_one_def length_power_symbols classify_power_symbols)
  have queue: "g_Fan_event_queue (parse_ir_code frame_power_then_one []) =
      [\<lparr>source = SOURCE_REMOTE, event_id = ID_POWER, arg = 0\<rparr>]"
    using parse_ir_code_leading_code [OF len bits code, of "[]"]
    by (simp add: xQueueSend_def QUEUE_LENGTH_def remote_event_def)
  have run: "parse_ir_code frame_power_then_one [] =
      parse_loop (logic1_symbol # replicate 36 logic0_symbol)
        \<lparr>g_Fan_event_queue = xQueueSend [] (remote_event ID_POWER), ir_code = IR_CODE_POWER,
         bit_index = 11,
         shift_log = map (\<lambda>i. 10 - i) (filter (\<lambda>i. bit IR_CODE_POWER (10 - i)) [0..<11])\<rparr>"
    using len parse_loop_code [OF code, of "logic1_symbol # replicate 36 logic0_symbol" "[]"]
    by (simp add: parse_ir_code_def RMT_MAX_MEM_SYMBOLS_def frame_power_then_one_def
        power_symbols_def)
  have log: "shift_log (parse_ir_code frame_power_then_one []) =
      [8, 5, 4, 3, 2, 1, 0, 4294967295]"
    unfolding run
    by (simp add: parse_symbol_classify classify_logic1_symbol classify_logic0_symbol
        count_bit_shift_log parse_loop_zeros_log set_bit_of_code_def NUM_SYMBOL_EXPECTED_def
        Let_def unsigned_minus_1_eq_mask mask_eq_exp_minus_1 IR_CODE_defs upt_rec
        bit_numeral_rec)
  show ?thesis
    using len queue log by simp
qed

section \<open>The handlers: what the actuator functions leave alone\<close>

lemma set_all_fields:
  "g_Fan_state (set_all ps v s) = g_Fan_state s"
  "g_Led_enable (set_all ps v s) = g_Led_enable s"
  "hap_log (set_all ps v s) = hap_log s"
  by (induction ps arbitrary: s) (simp_all add: gpio_set_level_def)

lemma set_all_log: "gpio_log (set_all ps v s) = gpio_log s @ map (\<lambda>p. (p, v)) ps"
  by (induction ps arbitrary: s) (simp_all add: gpio_set_level_def)

lemma Relay_write_speed_state: "g_Fan_state (Relay_write_speed sp s) = g_Fan_state s"
  by (simp add: Relay_write_speed_def Let_def set_all_fields gpio_set_level_def)

lemma Relay_write_oscillate_state: "g_Fan_state (Relay_write_oscillate b s) = g_Fan_state s"
  by (simp add: Relay_write_oscillate_def gpio_set_level_def)

lemma Led_write_state:
  "g_Fan_state (Led_write_enable b s) = g_Fan_state s"
  "g_Fan_state (Led_write_speed sp s) = g_Fan_state s"
  "g_Fan_state (Led_write_builtin b s) = g_Fan_state s"
  by (simp_all add: Led_write_enable_def Led_write_speed_def Led_write_builtin_def Let_def
      set_all_fields gpio_set_level_def)

lemma remote_next_speed_cycle:
  "valid_speed (speed f) \<Longrightarrow>
   remote_next_speed f = (if speed f = SPEED_1 then SPEED_4 else speed f - 1)"
  by (auto simp add: valid_speed_def remote_next_speed_def speed_defs signed_modulo_int_def)

section \<open>The handlers: button and remote\<close>

text \<open>
  C2: from a fan that is off with stored speed 4, five presses of the power button give
  on at speed 4, then 3, 2 and 1, and then off with the stored speed back at 4. Each of the
  first four presses clears the four speed relays, asserts the relay of the new speed and
  writes the stored oscillation to the oscillation relay; the fifth clears the speed
  relays, asserts none and switches the oscillation relay off.
\<close>

theorem button_power_cycle:
  "let press = handle_button \<lparr>source = SOURCE_BUTTON, event_id = ID_POWER, arg = a\<rparr>;
       s0 = s\<lparr>g_Fan_state := \<lparr>on = False, oscillate = osc, speed = SPEED_4\<rparr>\<rparr>;
       s1 = press s0; s2 = press s1; s3 = press s2; s4 = press s3; s5 = press s4;
       clear = [(FAN_SPEED1_RELAY_GPIO, GPIO_HIGH), (FAN_SPEED2_RELAY_GPIO, GPIO_HIGH),
                (FAN_SPEED3_RELAY_GPIO, GPIO_HIGH), (FAN_SPEED4_RELAY_GPIO, GPIO_HIGH)];
       osc_level = (if osc then GPIO_LOW else GPIO_HIGH)
   in g_Fan_state s1 = \<lparr>on = True, oscillate = osc, speed = SPEED_4\<rparr> \<and>
      g_Fan_state s2 = \<lparr>on = True, oscillate = osc, speed = SPEED_3\<rparr> \<and>
      g_Fan_state s3 = \<lparr>on = True, oscillate = osc, speed = SPEED_2\<rparr> \<and>
      g_Fan_state s4 = \<lparr>on = True, oscillate = osc, speed = SPEED_1\<rparr> \<and>
      g_Fan_state s5 = \<lparr>on = False, oscillate = osc, speed = SPEED_4\<rparr> \<and>
      gpio_log s1 = gpio_log s0 @ clear @
        [(FAN_SPEED4_RELAY_GPIO, GPIO_LOW), (FAN_OSC_RELAY_GPIO, osc_level)] \<and>
      gpio_log s2 = gpio_log s1 @ clear @
        [(FAN_SPEED3_RELAY_GPIO, GPIO_LOW), (FAN_OSC_RELAY_GPIO, osc_level)] \<and>
      gpio_log s3 = gpio_log s2 @ clear @
        [(FAN_SPEED2_RELAY_GPIO, GPIO_LOW), (FAN_OSC_RELAY_GPIO, osc_level)] \<and>
      gpio_log s4 = gpio_log s3 @ clear @
        [(FAN_SPEED1_RELAY_GPIO, GPIO_LOW), (FAN_OSC_RELAY_GPIO, osc_level)] \<and>
      gpio_log s5 = gpio_log s4 @ clear @ [(FAN_OSC_RELAY_GPIO, GPIO_HIGH)]"
  by (simp add: Let_def handle_button_def button_next_speed_def relay_defs setter_defs
      speed_defs gpio_defs)

text \<open>
  C4: a Speed command from the remote does nothing to the fan state and writes no output
  when the fan is off. When the fan is on, at one of the speeds 1 to 4, the new speed is
  the next lower one, with 4 after 1 (so never Off); the speed relays are cleared, the
  relay of the new speed is asserted, and the new speed is stored.
\<close>

theorem remote_speed_wraps:
  "(\<not> on (g_Fan_state s) \<longrightarrow>
      g_Fan_state (handle_remote \<lparr>source = SOURCE_REMOTE, event_id = ID_SPEED, arg = a\<rparr> s) =
        g_Fan_state s \<and>
      gpio_log (handle_remote \<lparr>source = SOURCE_REMOTE, event_id = ID_SPEED, arg = a\<rparr> s) =
        gpio_log s) \<and>
   (on (g_Fan_state s) \<and> valid_speed (speed (g_Fan_state s)) \<longrightarrow>
      (let s' = handle_remote \<lparr>source = SOURCE_REMOTE, event_id = ID_SPEED, arg = a\<rparr> s;
           next_speed = (if speed (g_Fan_state s) = SPEED_1 then SPEED_4
                         else speed (g_Fan_state s) - 1)
       in g_Fan_state s' = (g_Fan_state s)\<lparr>speed := next_speed\<rparr> \<and>
          valid_speed next_speed \<and> next_speed \<noteq> SPEED_OFF \<and>
          gpio_log s' = gpio_log s @
            [(FAN_SPEED1_RELAY_GPIO, GPIO_HIGH), (FAN_SPEED2_RELAY_GPIO, GPIO_HIGH),
             (FAN_SPEED3_RELAY_GPIO, GPIO_HIGH), (FAN_SPEED4_RELAY_GPIO, GPIO_HIGH),
             (if next_speed = SPEED_1 then FAN_SPEED1_RELAY_GPIO
              else if next_speed = SPEED_2 then FAN_SPEED2_RELAY_GPIO
              else if next_speed = SPEED_3 then FAN_SPEED3_RELAY_GPIO
              else FAN_SPEED4_RELAY_GPIO, GPIO_LOW)]))"
proof (intro conjI impI)
  assume "\<not> on (g_Fan_state s)"
  then show "g_Fan_state (handle_remote \<lparr>source = SOURCE_REMOTE, event_id = ID_SPEED, arg = a\<rparr> s) =
      g_Fan_state s"
    and "gpio_log (handle_remote \<lparr>source = SOURCE_REMOTE, event_id = ID_SPEED, arg = a\<rparr> s) =
      gpio_log s"
    by (simp_all add: handle_remote_def setter_defs)
next
  assume h: "on (g_Fan_state s) \<and> valid_speed (speed (g_Fan_state s))"
  then have n: "remote_next_speed (g_Fan_state s) =
      (if speed (g_Fan_state s) = SPEED_1 then SPEED_4 else speed (g_Fan_state s) - 1)"
    by (simp add: remote_next_speed_cycle)
  show "let s' = handle_remote \<lparr>source = SOURCE_REMOTE, event_id = ID_SPEED, arg = a\<rparr> s;
           next_speed = (if speed (g_Fan_state s) = SPEED_1 then SPEED_4
                         else speed (g_Fan_state s) - 1)
       in g_Fan_state s' = (g_Fan_state s)\<lparr>speed := next_speed\<rparr> \<and>
          valid_speed next_speed \<and> next_speed \<noteq> SPEED_OFF \<and>
          gpio_log s' = gpio_log s @
            [(FAN_SPEED1_RELAY_GPIO, GPIO_HIGH), (FAN_SPEED2_RELAY_GPIO, GPIO_HIGH),
             (FAN_SPEED3_RELAY_GPIO, GPIO_HIGH), (FAN_SPEED4_RELAY_GPIO, GPIO_HIGH),
             (if next_speed = SPEED_1 then FAN_SPEED1_RELAY_GPIO
              else if next_speed = SPEED_2 then FAN_SPEED2_RELAY_GPIO
              else if next_speed = SPEED_3 then FAN_SPEED3_RELAY_GPIO
              else FAN_SPEED4_RELAY_GPIO, GPIO_LOW)]"
    using h
    apply (simp add: handle_remote_def Let_def n)
    apply (auto simp add: valid_speed_def relay_defs setter_defs speed_defs gpio_defs)
    done
qed

text \<open>
  Witness for C4: the fan off at speed 3 (nothing happens), and the fan on at speed 1
  (the speed becomes 4 and relay 4 is asserted), both from the state after start-up.
\<close>

theorem remote_speed_wraps_witness:
  "\<not> on (g_Fan_state (set_speed SPEED_3 app_main)) \<and>
   g_Fan_state (handle_remote \<lparr>source = SOURCE_REMOTE, event_id = ID_SPEED, arg = 0\<rparr>
       (set_speed SPEED_3 app_main)) = \<lparr>on = False, oscillate = False, speed = SPEED_3\<rparr> \<and>
   on (g_Fan_state (set_on True (set_speed SPEED_1 app_main))) \<and>
   valid_speed (speed (g_Fan_state (set_on True (set_speed SPEED_1 app_main)))) \<and>
   g_Fan_state (handle_remote \<lparr>source = SOURCE_REMOTE, event_id = ID_SPEED, arg = 0\<rparr>
       (set_on True (set_speed SPEED_1 app_main))) =
     \<lparr>on = True, oscillate = False, speed = SPEED_4\<rparr>"
  using remote_speed_wraps [of "set_speed SPEED_3 app_main" 0]
    remote_speed_wraps [of "set_on True (set_speed SPEED_1 app_main)" 0]
  by (simp add: app_main_def setter_defs valid_speed_def Let_def)

text \<open>
  C10: for every state, an Oscillate command from the remote has exactly the effect of
  an Oscillate command from the button: the stored oscillation flag is flipped, the
  flipped value is written to the oscillation relay when the fan is on and nothing is
  written when it is off, and the resulting fan state is published to HomeKit.
\<close>

theorem remote_oscillate_as_button:
  "handle_remote \<lparr>source = SOURCE_REMOTE, event_id = ID_OSCILLATE, arg = a\<rparr> s =
     handle_button \<lparr>source = SOURCE_BUTTON, event_id = ID_OSCILLATE, arg = a'\<rparr> s \<and>
   handle_remote \<lparr>source = SOURCE_REMOTE, event_id = ID_OSCILLATE, arg = a\<rparr> s =
     s\<lparr>g_Fan_state := (g_Fan_state s)\<lparr>oscillate := \<not> oscillate (g_Fan_state s)\<rparr>,
       gpio_log := gpio_log s @
         (if on (g_Fan_state s)
          then [(FAN_OSC_RELAY_GPIO, if oscillate (g_Fan_state s) then GPIO_HIGH else GPIO_LOW)]
          else []),
       hap_log := hap_log s @ [(g_Fan_state s)\<lparr>oscillate := \<not> oscillate (g_Fan_state s)\<rparr>]\<rparr>"
  by (simp add: handle_remote_def handle_button_def relay_defs setter_defs Let_def)

section \<open>Debounce\<close>

lemma gpio_isr_handler_rejects:
  "t - prev_time_us b < MIN_TIME_BETWEEN_PRESS \<Longrightarrow> gpio_isr_handler x t b = b"
  by (cases x) (simp_all add: power_interrupt_def oscillate_interrupt_def)

lemma gpio_isr_handler_accepts:
  "MIN_TIME_BETWEEN_PRESS \<le> t - prev_time_us b \<Longrightarrow>
   gpio_isr_handler x t b =
     b\<lparr>g_Fan_event_queue :=
         xQueueSendFromISR (g_Fan_event_queue b) (button_event (isr_event_id x)),
       prev_time_us := t\<rparr>"
  by (cases x) (simp_all add: power_interrupt_def oscillate_interrupt_def)

text \<open>Edges inside the window of the clock, of whichever button, change nothing.\<close>

lemma button_edges_in_window:
  "\<forall>e\<in>set edges. snd e - prev_time_us b < MIN_TIME_BETWEEN_PRESS \<Longrightarrow>
   button_edges edges b = b"
  by (induction edges) (simp_all add: gpio_isr_handler_rejects)

text \<open>Edges that are spaced by the window are all accepted, while the queue has room.\<close>

lemma button_edges_spaced:
  "spaced (prev_time_us b) edges \<Longrightarrow>
   length (g_Fan_event_queue b) + length edges \<le> QUEUE_LENGTH \<Longrightarrow>
   g_Fan_event_queue (button_edges edges b) =
     g_Fan_event_queue b @ map (\<lambda>e. button_event (isr_event_id (fst e))) edges"
proof (induction edges arbitrary: b)
  case Nil
  then show ?case by simp
next
  case (Cons e edges)
  let ?b = "gpio_isr_handler (fst e) (snd e) b"
  from Cons.prems(1) have acc: "MIN_TIME_BETWEEN_PRESS \<le> snd e - prev_time_us b"
    and rest: "spaced (snd e) edges"
    by simp_all
  have room: "length (g_Fan_event_queue b) < QUEUE_LENGTH"
    using Cons.prems(2) by simp
  have q: "g_Fan_event_queue ?b = g_Fan_event_queue b @ [button_event (isr_event_id (fst e))]"
    and p: "prev_time_us ?b = snd e"
    using room by (simp_all add: gpio_isr_handler_accepts [OF acc] xQueueSendFromISR_def)
  have "g_Fan_event_queue (button_edges edges ?b) =
      g_Fan_event_queue ?b @ map (\<lambda>e. button_event (isr_event_id (fst e))) edges"
    using rest Cons.prems(2) by (intro Cons.IH) (simp_all add: p q)
  then show ?case by (simp add: q)
qed

text \<open>
  C5, as stated, fails: edges of one button at least 250 ms apart need not each yield a
  Command, because the clock is shared by both buttons. With the buttons initialised at
  time 0 and an empty queue, power edges at 300 ms and 600 ms with an oscillate edge at
  560 ms between them leave only two events in the queue, the first Power and the
  Oscillate; the second power edge, 300 ms after the first, yields none.
\<close>

theorem power_edges_apart_one_command:
  "MIN_TIME_BETWEEN_PRESS \<le> 600000 - (300000 :: int) \<and>
   g_Fan_event_queue
     (button_edges [(FAN_PWR_BUTTON_GPIO, 300000), (FAN_OSC_BUTTON_GPIO, 560000),
                    (FAN_PWR_BUTTON_GPIO, 600000)] (Button_init 0 [])) =
     [\<lparr>source = SOURCE_BUTTON, event_id = ID_POWER, arg = 0\<rparr>,
      \<lparr>source = SOURCE_BUTTON, event_id = ID_OSCILLATE, arg = 0\<rparr>] \<and>
   power_interrupt 600000
     (oscillate_interrupt 560000 (power_interrupt 300000 (Button_init 0 []))) =
     oscillate_interrupt 560000 (power_interrupt 300000 (Button_init 0 []))"
  by (simp add: Button_init_def power_interrupt_def oscillate_interrupt_def
      MIN_TIME_BETWEEN_PRESS_def NUM_USEC_IN_MSEC_def xQueueSendFromISR_def QUEUE_LENGTH_def
      button_event_def)

text \<open>
  C5, amended: the debounce window is 250 ms (250000 microseconds), and both buttons use
  one debounce clock, which holds the time of the last accepted edge of either button (of
  initialisation before the first). An edge of either button is accepted exactly when at
  least 250 ms have passed since that clock: the Button event of the button's kind is
  handed to the queue, where it is stored when there is room, and the clock is set to
  the time of the edge; a rejected edge changes nothing. After an accepted edge, all
  edges of either button less than 250 ms after it yield no Command. Edges of which each
  comes at least 250 ms after the edge before it, whichever the buttons, all yield
  Commands, in order, while the queue has room.
\<close>

theorem debounce_shared_clock:
  "MIN_TIME_BETWEEN_PRESS = 250 * 1000 \<and>
   gpio_isr_handler FAN_PWR_BUTTON_GPIO = power_interrupt \<and>
   gpio_isr_handler FAN_OSC_BUTTON_GPIO = oscillate_interrupt \<and>
   isr_event_id FAN_PWR_BUTTON_GPIO = ID_POWER \<and>
   isr_event_id FAN_OSC_BUTTON_GPIO = ID_OSCILLATE \<and>
   (length (g_Fan_event_queue b) < QUEUE_LENGTH \<longrightarrow>
      ((g_Fan_event_queue (gpio_isr_handler x t b) =
          g_Fan_event_queue b @
            [\<lparr>source = SOURCE_BUTTON, event_id = isr_event_id x, arg = 0\<rparr>] \<and>
        prev_time_us (gpio_isr_handler x t b) = t)
       \<longleftrightarrow> MIN_TIME_BETWEEN_PRESS \<le> t - prev_time_us b)) \<and>
   (u - prev_time_us b < MIN_TIME_BETWEEN_PRESS \<longrightarrow> gpio_isr_handler y u b = b) \<and>
   (MIN_TIME_BETWEEN_PRESS \<le> t1 - prev_time_us b \<and>
    (\<forall>e\<in>set later. snd e - t1 < MIN_TIME_BETWEEN_PRESS) \<longrightarrow>
      button_edges ((x1, t1) # later) b = gpio_isr_handler x1 t1 b \<and>
      prev_time_us (gpio_isr_handler x1 t1 b) = t1) \<and>
   (spaced (prev_time_us b) edges \<and>
    length (g_Fan_event_queue b) + length edges \<le> QUEUE_LENGTH \<longrightarrow>
      g_Fan_event_queue (button_edges edges b) =
        g_Fan_event_queue b @
          map (\<lambda>e. \<lparr>source = SOURCE_BUTTON, event_id = isr_event_id (fst e), arg = 0\<rparr>) edges)"
proof -
  have window: "MIN_TIME_BETWEEN_PRESS = 250 * 1000"
    by (simp add: MIN_TIME_BETWEEN_PRESS_def NUM_USEC_IN_MSEC_def)
  have one: "length (g_Fan_event_queue b) < QUEUE_LENGTH \<longrightarrow>
      ((g_Fan_event_queue (gpio_isr_handler x t b) =
          g_Fan_event_queue b @
            [\<lparr>source = SOURCE_BUTTON, event_id = isr_event_id x, arg = 0\<rparr>] \<and>
        prev_time_us (gpio_isr_handler x t b) = t)
       \<longleftrightarrow> MIN_TIME_BETWEEN_PRESS \<le> t - prev_time_us b)"
  proof (cases "MIN_TIME_BETWEEN_PRESS \<le> t - prev_time_us b")
    case True
    then show ?thesis
      by (simp add: gpio_isr_handler_accepts xQueueSendFromISR_def button_event_def)
  next
    case False
    then have "gpio_isr_handler x t b = b"
      by (simp add: gpio_isr_handler_rejects)
    with False show ?thesis by simp
  qed
  have rejected: "u - prev_time_us b < MIN_TIME_BETWEEN_PRESS \<longrightarrow> gpio_isr_handler y u b = b"
    by (simp add: gpio_isr_handler_rejects)
  have dropped: "MIN_TIME_BETWEEN_PRESS \<le> t1 - prev_time_us b \<and>
      (\<forall>e\<in>set later. snd e - t1 < MIN_TIME_BETWEEN_PRESS) \<longrightarrow>
        button_edges ((x1, t1) # later) b = gpio_isr_handler x1 t1 b \<and>
        prev_time_us (gpio_isr_handler x1 t1 b) = t1"
  proof (intro impI, elim conjE)
    assume acc: "MIN_TIME_BETWEEN_PRESS \<le> t1 - prev_time_us b"
      and later: "\<forall>e\<in>set later. snd e - t1 < MIN_TIME_BETWEEN_PRESS"
    have p: "prev_time_us (gpio_isr_handler x1 t1 b) = t1"
      by (simp add: gpio_isr_handler_accepts [OF acc])
    with later have "button_edges later (gpio_isr_handler x1 t1 b) = gpio_isr_handler x1 t1 b"
      by (intro button_edges_in_window) simp
    with p show "button_edges ((x1, t1) # later) b = gpio_isr_handler x1 t1 b \<and>
        prev_time_us (gpio_isr_handler x1 t1 b) = t1"
      by simp
  qed
  have all: "spaced (prev_time_us b) edges \<and>
      length (g_Fan_event_queue b) + length edges \<le> QUEUE_LENGTH \<longrightarrow>
        g_Fan_event_queue (button_edges edges b) =
          g_Fan_event_queue b @
            map (\<lambda>e. \<lparr>source = SOURCE_BUTTON, event_id = isr_event_id (fst e), arg = 0\<rparr>) edges"
    using button_edges_spaced [of b edges] by (simp add: button_event_def)
  show ?thesis
    using window one rejected dropped all by simp
qed

text \<open>
  Witness for C5 amended: buttons initialised at time 0 with an empty queue. A power edge
  at 300 ms is accepted and an oscillate edge at 100 ms is not; after the power edge at
  300 ms an oscillate edge at 400 ms and a power edge at 500 ms are dropped; a power edge
  at 300 ms, an oscillate edge at 560 ms and a power edge at 850 ms all yield Commands.
\<close>

theorem debounce_shared_clock_witness:
  "length (g_Fan_event_queue (Button_init 0 [])) < QUEUE_LENGTH \<and>
   MIN_TIME_BETWEEN_PRESS \<le> 300000 - prev_time_us (Button_init 0 []) \<and>
   100000 - prev_time_us (Button_init 0 []) < MIN_TIME_BETWEEN_PRESS \<and>
   (400000 :: int) - 300000 < MIN_TIME_BETWEEN_PRESS \<and>
   (500000 :: int) - 300000 < MIN_TIME_BETWEEN_PRESS \<and>
   spaced (prev_time_us (Button_init 0 []))
     [(FAN_PWR_BUTTON_GPIO, 300000), (FAN_OSC_BUTTON_GPIO, 560000),
      (FAN_PWR_BUTTON_GPIO, 850000)] \<and>
   length (g_Fan_event_queue (Button_init 0 [])) +
     length [(FAN_PWR_BUTTON_GPIO, 300000 :: int), (FAN_OSC_BUTTON_GPIO, 560000),
             (FAN_PWR_BUTTON_GPIO, 850000)] \<le> QUEUE_LENGTH \<and>
   g_Fan_event_queue (gpio_isr_handler FAN_PWR_BUTTON_GPIO 300000 (Button_init 0 [])) =
     [\<lparr>source = SOURCE_BUTTON, event_id = ID_POWER, arg = 0\<rparr>] \<and>
   prev_time_us (gpio_isr_handler FAN_PWR_BUTTON_GPIO 300000 (Button_init 0 [])) = 300000 \<and>
   gpio_isr_handler FAN_OSC_BUTTON_GPIO 100000 (Button_init 0 []) = Button_init 0 [] \<and>
   button_edges [(FAN_PWR_BUTTON_GPIO, 300000), (FAN_OSC_BUTTON_GPIO, 400000),
                 (FAN_PWR_BUTTON_GPIO, 500000)] (Button_init 0 []) =
     gpio_isr_handler FAN_PWR_BUTTON_GPIO 300000 (Button_init 0 []) \<and>
   g_Fan_event_queue
     (button_edges [(FAN_PWR_BUTTON_GPIO, 300000), (FAN_OSC_BUTTON_GPIO, 560000),
                    (FAN_PWR_BUTTON_GPIO, 850000)] (Button_init 0 [])) =
     [\<lparr>source = SOURCE_BUTTON, event_id = ID_POWER, arg = 0\<rparr>,
      \<lparr>source = SOURCE_BUTTON, event_id = ID_OSCILLATE, arg = 0\<rparr>,
      \<lparr>source = SOURCE_BUTTON, event_id = ID_POWER, arg = 0\<rparr>]"
proof -
  have room: "length (g_Fan_event_queue (Button_init 0 [])) < QUEUE_LENGTH"
    by (simp add: Button_init_def QUEUE_LENGTH_def)
  have acc: "MIN_TIME_BETWEEN_PRESS \<le> 300000 - prev_time_us (Button_init 0 [])"
    and rej: "100000 - prev_time_us (Button_init 0 []) < MIN_TIME_BETWEEN_PRESS"
    and near: "(400000 :: int) - 300000 < MIN_TIME_BETWEEN_PRESS"
      "(500000 :: int) - 300000 < MIN_TIME_BETWEEN_PRESS"
    by (simp_all add: Button_init_def MIN_TIME_BETWEEN_PRESS_def NUM_USEC_IN_MSEC_def)
  have sp: "spaced (prev_time_us (Button_init 0 []))
     [(FAN_PWR_BUTTON_GPIO, 300000), (FAN_OSC_BUTTON_GPIO, 560000),
      (FAN_PWR_BUTTON_GPIO, 850000)]"
    by (simp add: Button_init_def MIN_TIME_BETWEEN_PRESS_def NUM_USEC_IN_MSEC_def)
  have len: "length (g_Fan_event_queue (Button_init 0 [])) +
     length [(FAN_PWR_BUTTON_GPIO, 300000 :: int), (FAN_OSC_BUTTON_GPIO, 560000),
             (FAN_PWR_BUTTON_GPIO, 850000)] \<le> QUEUE_LENGTH"
    by (simp add: Button_init_def QUEUE_LENGTH_def)
  have q0: "g_Fan_event_queue (Button_init 0 []) = []"
    by (simp add: Button_init_def)
  show ?thesis
    using debounce_shared_clock [of "Button_init 0 []" FAN_PWR_BUTTON_GPIO 300000 100000
        FAN_OSC_BUTTON_GPIO 300000
        "[(FAN_OSC_BUTTON_GPIO, 400000), (FAN_PWR_BUTTON_GPIO, 500000)]" FAN_PWR_BUTTON_GPIO
        "[(FAN_PWR_BUTTON_GPIO, 300000), (FAN_OSC_BUTTON_GPIO, 560000),
          (FAN_PWR_BUTTON_GPIO, 850000)]"]
      room acc rej near sp len
    by (simp add: q0)
qed

section \<open>The stored speed\<close>

lemma producers_well_formed:
  "HomeKit_write_event w = Some event \<Longrightarrow> well_formed_event event"
  "well_formed_event (remote_event i)"
  "well_formed_event (button_event i)"
  by (cases w) (auto simp add: well_formed_event_def homekit_event_def remote_event_def
      button_event_def)

lemma valid_speed_handle_homekit:
  "well_formed_event ev \<Longrightarrow> source ev = SOURCE_HOMEKIT \<Longrightarrow>
   valid_speed (speed (g_Fan_state s)) \<Longrightarrow>
   valid_speed (speed (g_Fan_state (handle_homekit ev s)))"
  by (cases "event_id ev")
     (auto simp add: handle_homekit_def well_formed_event_def valid_speed_def setter_defs
        Let_def Relay_write_speed_state Relay_write_oscillate_state)

lemma valid_speed_handle_button:
  "valid_speed (speed (g_Fan_state s)) \<Longrightarrow>
   valid_speed (speed (g_Fan_state (handle_button ev s)))"
  by (cases "event_id ev")
     (auto simp add: handle_button_def valid_speed_def setter_defs Let_def
        Relay_write_speed_state Relay_write_oscillate_state button_next_speed_def speed_defs)

lemma valid_speed_handle_remote:
  "valid_speed (speed (g_Fan_state s)) \<Longrightarrow>
   valid_speed (speed (g_Fan_state (handle_remote ev s)))"
  apply (cases "event_id ev")
  apply (auto simp add: handle_remote_def setter_defs Let_def Relay_write_speed_state
      Relay_write_oscillate_state remote_next_speed_cycle Led_write_state)
  apply (auto simp add: valid_speed_def speed_defs)
  done

lemma valid_speed_handle_event:
  "well_formed_event ev \<Longrightarrow> valid_speed (speed (g_Fan_state s)) \<Longrightarrow>
   valid_speed (speed (g_Fan_state (handle_event ev s)))"
  by (cases "source ev")
     (simp_all add: handle_event_def Let_def Led_write_state valid_speed_handle_homekit
        valid_speed_handle_button valid_speed_handle_remote)

lemma valid_speed_Lasko_event_handler:
  "\<forall>ev\<in>set evs. well_formed_event ev \<Longrightarrow> valid_speed (speed (g_Fan_state s)) \<Longrightarrow>
   valid_speed (speed (g_Fan_state (Lasko_event_handler evs s)))"
  by (induction evs arbitrary: s) (simp_all add: valid_speed_handle_event)

lemma g_Fan_state_app_main:
  "g_Fan_state app_main = \<lparr>on = False, oscillate = False, speed = SPEED_4\<rparr>"
  by (simp add: app_main_def)

text \<open>
  C7: the fan starts off, without oscillation, at stored speed 4. After any sequence of
  events from the producers (a HomeKit speed event carries one of the five speed
  constants), handled by the event loop from there, the stored speed is one of the speeds
  1 to 4 and not Off. When a press of the power button turns the fan off the stored speed
  is 4 afterwards; a Power event from the remote or from HomeKit leaves the stored speed
  as it is; a HomeKit Speed event with the value Off changes nothing.
\<close>

theorem stored_speed_never_off:
  assumes "\<forall>event\<in>set events. well_formed_event event"
  shows "g_Fan_state app_main = \<lparr>on = False, oscillate = False, speed = SPEED_4\<rparr> \<and>
    speed (g_Fan_state (Lasko_event_handler events app_main)) \<in>
      {SPEED_1, SPEED_2, SPEED_3, SPEED_4} \<and>
    speed (g_Fan_state (Lasko_event_handler events app_main)) \<noteq> SPEED_OFF \<and>
    (on (g_Fan_state s) \<and>
     \<not> on (g_Fan_state
        (handle_button \<lparr>source = SOURCE_BUTTON, event_id = ID_POWER, arg = a\<rparr> s)) \<longrightarrow>
       speed (g_Fan_state
        (handle_button \<lparr>source = SOURCE_BUTTON, event_id = ID_POWER, arg = a\<rparr> s)) = SPEED_4) \<and>
    speed (g_Fan_state
        (handle_remote \<lparr>source = SOURCE_REMOTE, event_id = ID_POWER, arg = a\<rparr> s)) =
      speed (g_Fan_state s) \<and>
    speed (g_Fan_state
        (handle_homekit \<lparr>source = SOURCE_HOMEKIT, event_id = ID_POWER, arg = a\<rparr> s)) =
      speed (g_Fan_state s) \<and>
    handle_homekit \<lparr>source = SOURCE_HOMEKIT, event_id = ID_SPEED, arg = SPEED_OFF\<rparr> s = s"
proof -
  have "valid_speed (speed (g_Fan_state (Lasko_event_handler events app_main)))"
    using assms
    by (rule valid_speed_Lasko_event_handler) (simp add: g_Fan_state_app_main valid_speed_def)
  then have inv: "speed (g_Fan_state (Lasko_event_handler events app_main)) \<in>
      {SPEED_1, SPEED_2, SPEED_3, SPEED_4}"
    and off: "speed (g_Fan_state (Lasko_event_handler events app_main)) \<noteq> SPEED_OFF"
    by (auto simp add: valid_speed_def speed_defs)
  have button: "on (g_Fan_state s) \<and>
     \<not> on (g_Fan_state
        (handle_button \<lparr>source = SOURCE_BUTTON, event_id = ID_POWER, arg = a\<rparr> s)) \<longrightarrow>
       speed (g_Fan_state
        (handle_button \<lparr>source = SOURCE_BUTTON, event_id = ID_POWER, arg = a\<rparr> s)) = SPEED_4"
    by (auto simp add: handle_button_def setter_defs Let_def Relay_write_speed_state
        Relay_write_oscillate_state)
  have remote: "speed (g_Fan_state
        (handle_remote \<lparr>source = SOURCE_REMOTE, event_id = ID_POWER, arg = a\<rparr> s)) =
      speed (g_Fan_state s)"
    by (simp add: handle_remote_def setter_defs Let_def Relay_write_speed_state
        Relay_write_oscillate_state)
  have homekit: "speed (g_Fan_state
        (handle_homekit \<lparr>source = SOURCE_HOMEKIT, event_id = ID_POWER, arg = a\<rparr> s)) =
      speed (g_Fan_state s)"
    by (simp add: handle_homekit_def setter_defs Let_def Relay_write_speed_state
        Relay_write_oscillate_state)
  have ignored:
    "handle_homekit \<lparr>source = SOURCE_HOMEKIT, event_id = ID_SPEED, arg = SPEED_OFF\<rparr> s = s"
    by (simp add: handle_homekit_def)
  show ?thesis
    using inv off button remote homekit ignored by (simp add: g_Fan_state_app_main)
qed

text \<open>
  Witness for C7: a press of the power button, a HomeKit speed event built by the
  callback for the rotation speed 60, a Power from the remote and a HomeKit speed event
  for the rotation speed 0; and, for the press that turns the fan off, the fan on at
  speed 1.
\<close>

theorem stored_speed_never_off_witness:
  "well_formed_event (button_event ID_POWER) \<and>
   well_formed_event (the (HomeKit_write_event (HAP_CHAR_ROTATION_SPEED 60))) \<and>
   well_formed_event (remote_event ID_POWER) \<and>
   well_formed_event (the (HomeKit_write_event (HAP_CHAR_ROTATION_SPEED 0))) \<and>
   speed (g_Fan_state (Lasko_event_handler
     [button_event ID_POWER, the (HomeKit_write_event (HAP_CHAR_ROTATION_SPEED 60)),
      remote_event ID_POWER, the (HomeKit_write_event (HAP_CHAR_ROTATION_SPEED 0))] app_main))
     \<in> {SPEED_1, SPEED_2, SPEED_3, SPEED_4} \<and>
   on (g_Fan_state (set_on True (set_speed SPEED_1 app_main))) \<and>
   \<not> on (g_Fan_state (handle_button \<lparr>source = SOURCE_BUTTON, event_id = ID_POWER, arg = 0\<rparr>
       (set_on True (set_speed SPEED_1 app_main)))) \<and>
   speed (g_Fan_state (handle_button \<lparr>source = SOURCE_BUTTON, event_id = ID_POWER, arg = 0\<rparr>
       (set_on True (set_speed SPEED_1 app_main)))) = SPEED_4"
proof -
  have wf: "\<forall>event\<in>set [button_event ID_POWER,
       the (HomeKit_write_event (HAP_CHAR_ROTATION_SPEED 60)),
       remote_event ID_POWER, the (HomeKit_write_event (HAP_CHAR_ROTATION_SPEED 0))].
     well_formed_event event"
    by (simp add: well_formed_event_def button_event_def remote_event_def homekit_event_def)
  have on: "on (g_Fan_state (set_on True (set_speed SPEED_1 app_main)))"
    by (simp add: setter_defs)
  have off: "\<not> on (g_Fan_state
      (handle_button \<lparr>source = SOURCE_BUTTON, event_id = ID_POWER, arg = 0\<rparr>
        (set_on True (set_speed SPEED_1 app_main))))"
    by (simp add: handle_button_def setter_defs Let_def Relay_write_speed_state
        Relay_write_oscillate_state button_next_speed_def g_Fan_state_app_main speed_defs)
  show ?thesis
    using stored_speed_never_off [OF wf, of "set_on True (set_speed SPEED_1 app_main)" 0]
      wf on off
    by simp
qed

section \<open>The speed relays\<close>

lemma levels_after_append: "levels_after (a @ b) L = levels_after b (levels_after a L)"
  by (induction a arbitrary: L) simp_all

lemma never_two_start: "never_two ws L \<Longrightarrow> at_most_one_asserted L"
  by (cases ws) simp_all

lemma never_two_append:
  "never_two (a @ b) L \<longleftrightarrow> never_two a L \<and> never_two b (levels_after a L)"
  by (induction a arbitrary: L) (auto dest: never_two_start)

lemma never_two_final: "never_two ws L \<Longrightarrow> at_most_one_asserted (levels_after ws L)"
  by (induction ws arbitrary: L) simp_all

lemma never_two_take: "never_two ws L \<Longrightarrow> at_most_one_asserted (levels_after (take n ws) L)"
proof (induction ws arbitrary: n L)
  case Nil
  then show ?case by simp
next
  case (Cons w ws)
  then show ?case by (cases n) auto
qed

lemma at_most_one_asserted_pins:
  "at_most_one_asserted L \<longleftrightarrow>
     \<not> (L 3 = 0 \<and> L 4 = 0) \<and> \<not> (L 3 = 0 \<and> L 5 = 0) \<and> \<not> (L 3 = 0 \<and> L 6 = 0) \<and>
     \<not> (L 4 = 0 \<and> L 5 = 0) \<and> \<not> (L 4 = 0 \<and> L 6 = 0) \<and> \<not> (L 5 = 0 \<and> L 6 = 0)"
  by (simp add: at_most_one_asserted_def asserted_speed_relays_def gpio_defs)

lemma harmless_other_pins:
  "\<forall>w\<in>set ws. fst w \<notin> {3, 4, 5, 6} \<Longrightarrow> at_most_one_asserted L \<Longrightarrow> never_two ws L"
proof (induction ws arbitrary: L)
  case Nil
  then show ?case by simp
next
  case (Cons w ws)
  have "at_most_one_asserted (L(fst w := snd w))"
    using Cons.prems by (simp add: at_most_one_asserted_pins)
  with Cons show ?case by simp
qed

lemma Relay_write_speed_log:
  "gpio_log (Relay_write_speed sp s) = gpio_log s @
     (if speed (g_Fan_state s) = sp \<and> on (g_Fan_state s) then []
      else [(FAN_SPEED1_RELAY_GPIO, GPIO_HIGH), (FAN_SPEED2_RELAY_GPIO, GPIO_HIGH),
            (FAN_SPEED3_RELAY_GPIO, GPIO_HIGH), (FAN_SPEED4_RELAY_GPIO, GPIO_HIGH)] @
           (if sp = SPEED_1 then [(FAN_SPEED1_RELAY_GPIO, GPIO_LOW)]
            else if sp = SPEED_2 then [(FAN_SPEED2_RELAY_GPIO, GPIO_LOW)]
            else if sp = SPEED_3 then [(FAN_SPEED3_RELAY_GPIO, GPIO_LOW)]
            else if sp = SPEED_4 then [(FAN_SPEED4_RELAY_GPIO, GPIO_LOW)]
            else []))"
  by (simp add: Relay_write_speed_def Let_def set_all_log gpio_set_level_def relays_def
      NUM_SPEED_RELAY_def speed_defs)

lemma relays_safe_step:
  assumes s: "relays_safe L0 s" and log: "gpio_log s' = gpio_log s @ ws"
    and ws: "\<And>L. at_most_one_asserted L \<Longrightarrow> never_two ws L"
  shows "relays_safe L0 s'"
proof -
  let ?k = "length (gpio_log app_main)"
  from s have t: "take ?k (gpio_log s) = gpio_log app_main"
    and n: "never_two (drop ?k (gpio_log s)) (levels_after (gpio_log app_main) L0)"
    by (simp_all add: relays_safe_def)
  from t have "length (take ?k (gpio_log s)) = ?k" by simp
  then have k: "?k \<le> length (gpio_log s)" by simp
  have "never_two ws (levels_after (drop ?k (gpio_log s)) (levels_after (gpio_log app_main) L0))"
    by (rule ws) (rule never_two_final [OF n])
  with n k t show ?thesis
    by (simp add: relays_safe_def log never_two_append)
qed

lemma relays_safe_same_log: "gpio_log s' = gpio_log s \<Longrightarrow> relays_safe L0 s' = relays_safe L0 s"
  by (simp add: relays_safe_def)

lemma harmless_Relay_write_speed:
  "at_most_one_asserted L \<Longrightarrow>
   never_two
     (if c then []
      else [(FAN_SPEED1_RELAY_GPIO, GPIO_HIGH), (FAN_SPEED2_RELAY_GPIO, GPIO_HIGH),
            (FAN_SPEED3_RELAY_GPIO, GPIO_HIGH), (FAN_SPEED4_RELAY_GPIO, GPIO_HIGH)] @
           (if sp = SPEED_1 then [(FAN_SPEED1_RELAY_GPIO, GPIO_LOW)]
            else if sp = SPEED_2 then [(FAN_SPEED2_RELAY_GPIO, GPIO_LOW)]
            else if sp = SPEED_3 then [(FAN_SPEED3_RELAY_GPIO, GPIO_LOW)]
            else if sp = SPEED_4 then [(FAN_SPEED4_RELAY_GPIO, GPIO_LOW)]
            else [])) L"
  by (simp add: at_most_one_asserted_pins gpio_defs)

lemma safe_Relay_write_speed: "relays_safe L0 s \<Longrightarrow> relays_safe L0 (Relay_write_speed sp s)"
  by (erule relays_safe_step [OF _ Relay_write_speed_log]) (rule harmless_Relay_write_speed)

lemma safe_other_pin:
  assumes "p \<notin> {3, 4, 5, 6}" and "relays_safe L0 s"
  shows "relays_safe L0 (gpio_set_level p v s)"
proof (rule relays_safe_step [OF assms(2), where ws = "[(p, v)]"])
  show "gpio_log (gpio_set_level p v s) = gpio_log s @ [(p, v)]"
    by (simp add: gpio_set_level_def)
next
  fix L
  assume "at_most_one_asserted L"
  then show "never_two [(p, v)] L"
    using assms(1) by (intro harmless_other_pins) simp_all
qed

lemma safe_set_all:
  "set ps \<inter> {3, 4, 5, 6} = {} \<Longrightarrow> relays_safe L0 s \<Longrightarrow> relays_safe L0 (set_all ps v s)"
  by (erule relays_safe_step [OF _ set_all_log]) (auto intro!: harmless_other_pins)

lemma safe_Relay_write_oscillate: "relays_safe L0 s \<Longrightarrow> relays_safe L0 (Relay_write_oscillate b s)"
  by (simp add: Relay_write_oscillate_def safe_other_pin gpio_defs)

lemma safe_Led_write_builtin: "relays_safe L0 s \<Longrightarrow> relays_safe L0 (Led_write_builtin b s)"
  by (simp add: Led_write_builtin_def safe_other_pin gpio_defs)

lemma safe_Led_write_speed: "relays_safe L0 s \<Longrightarrow> relays_safe L0 (Led_write_speed sp s)"
  by (simp add: Led_write_speed_def Let_def safe_other_pin safe_set_all gpio_defs)

lemma safe_Led_write_enable: "relays_safe L0 s \<Longrightarrow> relays_safe L0 (Led_write_enable b s)"
proof -
  assume "relays_safe L0 s"
  then have "relays_safe L0 (s\<lparr>g_Led_enable := b\<rparr>)"
    by (simp add: relays_safe_def)
  then have "relays_safe L0 (set_all (take NUM_SPEED_LED leds) GPIO_LOW (s\<lparr>g_Led_enable := b\<rparr>))"
    by (rule safe_set_all [rotated]) (simp add: gpio_defs)
  with \<open>relays_safe L0 (s\<lparr>g_Led_enable := b\<rparr>)\<close> show ?thesis
    by (cases b) (simp_all add: Led_write_enable_def Let_def)
qed

lemma safe_setters:
  "relays_safe L0 (set_on b s) = relays_safe L0 s"
  "relays_safe L0 (set_oscillate b s) = relays_safe L0 s"
  "relays_safe L0 (set_speed sp s) = relays_safe L0 s"
  "relays_safe L0 (HomeKit_update_char s) = relays_safe L0 s"
  by (simp_all add: relays_safe_def setter_defs)

lemmas safe_rules = safe_Relay_write_speed safe_Relay_write_oscillate safe_Led_write_builtin
  safe_Led_write_speed safe_Led_write_enable

lemma safe_handle_homekit: "relays_safe L0 s \<Longrightarrow> relays_safe L0 (handle_homekit ev s)"
  by (cases "event_id ev") (simp_all add: handle_homekit_def Let_def safe_setters safe_rules)

lemma safe_handle_button: "relays_safe L0 s \<Longrightarrow> relays_safe L0 (handle_button ev s)"
  by (cases "event_id ev") (simp_all add: handle_button_def Let_def safe_setters safe_rules)

lemma safe_handle_remote: "relays_safe L0 s \<Longrightarrow> relays_safe L0 (handle_remote ev s)"
  by (cases "event_id ev") (simp_all add: handle_remote_def Let_def safe_setters safe_rules)

lemma safe_handle_event: "relays_safe L0 s \<Longrightarrow> relays_safe L0 (handle_event ev s)"
  by (cases "source ev")
     (simp_all add: handle_event_def Let_def safe_rules safe_handle_homekit safe_handle_button
        safe_handle_remote)

lemma safe_Lasko_event_handler:
  "relays_safe L0 s \<Longrightarrow> relays_safe L0 (Lasko_event_handler evs s)"
  by (induction evs arbitrary: s) (simp_all add: safe_handle_event)

lemma gpio_log_app_main:
  "gpio_log app_main = map (\<lambda>p. (p, GPIO_HIGH)) relays @ map (\<lambda>p. (p, GPIO_LOW)) leds"
  by (simp add: app_main_def Relay_init_def Led_init_def set_all_log)

lemma length_gpio_log_app_main: "length (gpio_log app_main) = 10"
  by (simp add: gpio_log_app_main relays_def leds_def)

lemma safe_app_main: "relays_safe L0 app_main"
  by (simp add: relays_safe_def gpio_log_app_main at_most_one_asserted_pins gpio_defs)

lemma relays_safe_prefix:
  assumes "relays_safe L0 s" and "length (gpio_log app_main) \<le> n"
  shows "at_most_one_asserted (levels_after (take n (gpio_log s)) L0)"
proof -
  let ?k = "length (gpio_log app_main)"
  from assms(1) have t: "take ?k (gpio_log s) = gpio_log app_main"
    and nt: "never_two (drop ?k (gpio_log s)) (levels_after (gpio_log app_main) L0)"
    by (simp_all add: relays_safe_def)
  have "gpio_log s = gpio_log app_main @ drop ?k (gpio_log s)"
    using append_take_drop_id [of ?k "gpio_log s"] t by simp
  then have "take n (gpio_log s) = gpio_log app_main @ take (n - ?k) (drop ?k (gpio_log s))"
    using assms(2) by (metis take_append take_all)
  then show ?thesis
    by (simp add: levels_after_append never_two_take [OF nt])
qed

text \<open>
  C6: from the end of initialisation on, whatever events the loop handles and whatever
  the levels of the pins were at power-up, after every single write to an output at most
  one speed relay is asserted. Each call of \<open>Relay_write_speed\<close> writes nothing when the
  fan is on at the requested speed, and otherwise first sets the four speed relays high
  (off) in turn and then pulls low the relay of the requested speed, or none for Off or
  an invalid speed.
\<close>

theorem speed_relays_never_two:
  "(length (gpio_log app_main) \<le> n \<longrightarrow>
      length (asserted_speed_relays
        (levels_after (take n (gpio_log (Lasko_event_handler events app_main))) L0)) \<le> 1) \<and>
   gpio_log (Relay_write_speed sp s) = gpio_log s @
     (if speed (g_Fan_state s) = sp \<and> on (g_Fan_state s) then []
      else [(FAN_SPEED1_RELAY_GPIO, GPIO_HIGH), (FAN_SPEED2_RELAY_GPIO, GPIO_HIGH),
            (FAN_SPEED3_RELAY_GPIO, GPIO_HIGH), (FAN_SPEED4_RELAY_GPIO, GPIO_HIGH)] @
           (if sp = SPEED_1 then [(FAN_SPEED1_RELAY_GPIO, GPIO_LOW)]
            else if sp = SPEED_2 then [(FAN_SPEED2_RELAY_GPIO, GPIO_LOW)]
            else if sp = SPEED_3 then [(FAN_SPEED3_RELAY_GPIO, GPIO_LOW)]
            else if sp = SPEED_4 then [(FAN_SPEED4_RELAY_GPIO, GPIO_LOW)]
            else []))"
proof -
  have "relays_safe L0 (Lasko_event_handler events app_main)"
    by (rule safe_Lasko_event_handler [OF safe_app_main])
  then have "length (gpio_log app_main) \<le> n \<longrightarrow>
      length (asserted_speed_relays
        (levels_after (take n (gpio_log (Lasko_event_handler events app_main))) L0)) \<le> 1"
    using relays_safe_prefix [of L0 "Lasko_event_handler events app_main" n]
    by (simp add: at_most_one_asserted_def)
  then show ?thesis
    by (simp only: Relay_write_speed_log simp_thms)
qed

text \<open>
  Witness for C6: all pins low at power-up (every relay asserted), the fan switched on
  by the button and then set to speed 2 by the remote; the moment looked at is after 16
  writes, in the middle of the first change of speed.
\<close>

theorem speed_relays_never_two_witness:
  "length (gpio_log app_main) \<le> 16 \<and>
   length (asserted_speed_relays
     (levels_after (take 16 (gpio_log (Lasko_event_handler
        [button_event ID_POWER, remote_event ID_SPEED, remote_event ID_SPEED] app_main)))
        (\<lambda>p. GPIO_LOW))) \<le> 1"
  using speed_relays_never_two [of 16
      "[button_event ID_POWER, remote_event ID_SPEED, remote_event ID_SPEED]" "\<lambda>p. GPIO_LOW"]
  by (simp add: length_gpio_log_app_main)

end
